theory Spec2Isabelle
  imports Main "HOL-Library.Word"
begin

section \<open>Values exchanged with the outside world\<close>

text \<open>
  The client of \<^verbatim>\<open>heatmap_client.py\<close> talks to three collaborators: an HTTP
  service, a WebSocket and the local file system. Each of them is modelled by the values
  it hands to the program (responses, received messages) and by a \<open>world\<close> record
  that collects the effects the program has on it (files written, URLs contacted).
  Console output (\<^verbatim>\<open>print\<close>) and \<^verbatim>\<open>time.sleep\<close> are left out: no control
  flow depends on them.
\<close>

type_synonym byte = "8 word"

text \<open>The exceptions that the program can meet, by Python class.\<close>

datatype exn =
    TypeError
  | ValueError
  | AttributeError
  | Base64Error
  | JSONDecodeError
  | OSError
  | RequestException
  | HTTPError
  | WebSocketTimeoutException
  | WebSocketException

text \<open>
  A value produced by \<^verbatim>\<open>json.loads\<close>. A float is kept as its literal text: the
  program never computes with one. A \<^verbatim>\<open>dict\<close> is an association list read with
  \<open>map_of\<close>. A \<^verbatim>\<open>str\<close> is held as the bytes of its UTF-8 encoding, which is
  also how the file system sees a file name; a \<^verbatim>\<open>str\<close> without such an encoding (a
  lone surrogate) has no counterpart here.
\<close>

datatype json =
    JNull
  | JBool bool
  | JInt int
  | JFloat string
  | JStr string
  | JArr "json list"
  | JObj "(string \<times> json) list"

text \<open>
  \<^verbatim>\<open>d.get(key, default)\<close>: only a \<^verbatim>\<open>dict\<close> has the method; on every other JSON value
  the attribute lookup raises \<^verbatim>\<open>AttributeError\<close>.
\<close>

fun dict_get :: "json \<Rightarrow> string \<Rightarrow> json \<Rightarrow> exn + json" where
  "dict_get (JObj kvs) k d = Inr (case map_of kvs k of Some v \<Rightarrow> v | None \<Rightarrow> d)"
| "dict_get _ k d = Inl AttributeError"

text \<open>Sequencing of steps that may raise: the first exception ends the sequence.\<close>

definition and_then :: "exn + 'a \<Rightarrow> ('a \<Rightarrow> exn + 'b) \<Rightarrow> exn + 'b" where
  "and_then m f = (case m of Inl e \<Rightarrow> Inl e | Inr x \<Rightarrow> f x)"

section \<open>Strings\<close>

text \<open>
  \<^verbatim>\<open>s.replace(old, new)\<close> for a non-empty \<open>old\<close>: the occurrences of \<open>old\<close> are
  found from left to right without overlap, in one pass. Both calls of the program pass
  a non-empty constant (for an empty \<open>old\<close> Python inserts \<open>new\<close> between all
  characters, which this function does not model: it returns the string unchanged).
\<close>

fun str_replace :: "string \<Rightarrow> string \<Rightarrow> string \<Rightarrow> string" where
  "str_replace old new [] = []"
| "str_replace old new (c # cs) =
     (if old \<noteq> [] \<and> take (length old) (c # cs) = old
      then new @ str_replace old new (drop (length old - 1) cs)
      else c # str_replace old new cs)"

section \<open>Base64\<close>

text \<open>
  \<^verbatim>\<open>base64.b64decode(s)\<close> with its default \<^verbatim>\<open>validate=False\<close>, as CPython's
  \<^verbatim>\<open>binascii.a2b_base64\<close> computes it: characters outside the alphabet are skipped,
  every four alphabet characters give three bytes, a padding sequence that completes a
  quad ends the decoding, and an incomplete quad at the end of the input is an error.
\<close>

definition b64_value :: "char \<Rightarrow> nat option" where
  "b64_value c =
     (let n = (of_char c :: nat) in
      if 65 \<le> n \<and> n \<le> 90 then Some (n - 65)
      else if 97 \<le> n \<and> n \<le> 122 then Some (n - 71)
      else if 48 \<le> n \<and> n \<le> 57 then Some (n + 4)
      else if n = 43 then Some 62
      else if n = 47 then Some 63
      else None)"

definition emit :: "nat \<Rightarrow> exn + byte list \<Rightarrow> exn + byte list" where
  "emit b r = (case r of Inl e \<Rightarrow> Inl e | Inr bs \<Rightarrow> Inr (of_nat b # bs))"

text \<open>
  The arguments after the input are the position in the current quad, the bits left
  over from the previous character and the number of padding characters seen in a row.
\<close>

fun a2b_base64 :: "string \<Rightarrow> nat \<Rightarrow> nat \<Rightarrow> nat \<Rightarrow> exn + byte list" where
  "a2b_base64 [] quad_pos leftchar pads =
     (if quad_pos = 0 then Inr [] else Inl Base64Error)"
| "a2b_base64 (c # cs) quad_pos leftchar pads =
     (if c = CHR ''='' then
        (if 2 \<le> quad_pos \<and> 4 \<le> quad_pos + (pads + 1) then Inr []
         else a2b_base64 cs quad_pos leftchar (if 2 \<le> quad_pos then pads + 1 else pads))
      else
        (case b64_value c of
           None \<Rightarrow> a2b_base64 cs quad_pos leftchar pads
         | Some v \<Rightarrow>
             (if quad_pos = 0 then a2b_base64 cs 1 v 0
              else if quad_pos = 1 then
                emit (leftchar * 4 + v div 16) (a2b_base64 cs 2 (v mod 16) 0)
              else if quad_pos = 2 then
                emit (leftchar * 16 + v div 4) (a2b_base64 cs 3 (v mod 4) 0)
              else emit (leftchar * 64 + v) (a2b_base64 cs 0 0 0))))"

text \<open>
  The argument of \<^verbatim>\<open>b64decode\<close> comes from a JSON message. A \<^verbatim>\<open>str\<close> is encoded
  as ASCII first (\<^verbatim>\<open>ValueError\<close> when it has another character); every other JSON
  value, \<^verbatim>\<open>None\<close> for a missing field included, is not bytes-like:
  \<^verbatim>\<open>TypeError\<close>.
\<close>

fun b64decode :: "json \<Rightarrow> exn + byte list" where
  "b64decode (JStr s) =
     (if list_all (\<lambda>c. (of_char c :: nat) < 128) s then a2b_base64 s 0 0 0 else Inl ValueError)"
| "b64decode _ = Inl TypeError"

section \<open>Paths and the file system\<close>

text \<open>
  A \<^verbatim>\<open>pathlib.Path\<close> on POSIX: whether it is anchored at the root, and its
  components. Parsing a string drops empty components and \<^verbatim>\<open>.\<close>, and keeps
  \<^verbatim>\<open>..\<close>.
\<close>

record ppath =
  anchored :: bool
  parts :: "string list"

fun split_slash :: "string \<Rightarrow> string \<Rightarrow> string list" where
  "split_slash acc [] = [acc]"
| "split_slash acc (c # cs) =
     (if c = CHR ''/'' then acc # split_slash [] cs else split_slash (acc @ [c]) cs)"

definition path_parts :: "string \<Rightarrow> string list" where
  "path_parts s = filter (\<lambda>p. p \<noteq> [] \<and> p \<noteq> ''.'') (split_slash [] s)"

definition Path :: "string \<Rightarrow> ppath" where
  "Path s = \<lparr>anchored = (take 1 s = ''/''), parts = path_parts s\<rparr>"

text \<open>
  \<^verbatim>\<open>p / name\<close>: an absolute right operand replaces the left one, a relative one is
  appended. The right operand comes from a JSON message: anything but a \<^verbatim>\<open>str\<close>
  raises \<^verbatim>\<open>TypeError\<close>.
\<close>

fun truediv :: "ppath \<Rightarrow> json \<Rightarrow> exn + ppath" where
  "truediv p (JStr s) =
     Inr (if take 1 s = ''/'' then Path s else p\<lparr>parts := parts p @ path_parts s\<rparr>)"
| "truediv p _ = Inl TypeError"

text \<open>
  The file system: the directories and the files that exist, under absolute, resolved
  names (the list of components from the root), and the working directory of the
  process. There are no symbolic links, and no permissions or quotas: an operation fails
  for the path it is given (a NUL character, a component or a path that is too long) or
  for the shape of the tree. \<open>history\<close> lists the successful writes of files, the
  oldest first. \<open>posts\<close> lists the HTTP requests sent (URL and JSON body),
  \<open>connections\<close> the URLs of the WebSocket connections attempted.

  A file holds the bytes of a frame, or the text of \<^verbatim>\<open>metadata.txt\<close>. That text is
  kept as the three values its three lines print: the frames received, the total
  expected and the absolute output directory.
\<close>

datatype fcontent =
    Bytes "byte list"
  | Summary int json "string list"

record world =
  cwd :: "string list"
  dirs :: "string list set"
  files :: "string list \<rightharpoonup> fcontent"
  history :: "(string list \<times> fcontent) list"
  posts :: "(string \<times> json) list"
  connections :: "string list"

text \<open>\<^verbatim>\<open>p.absolute()\<close>: the working directory is put in front of a relative path.\<close>

definition absolute :: "world \<Rightarrow> ppath \<Rightarrow> string list" where
  "absolute w p = (if anchored p then parts p else cwd w @ parts p)"

definition enter :: "string list \<Rightarrow> string \<Rightarrow> string list" where
  "enter d x = (if x = ''..'' then butlast d else d @ [x])"

text \<open>Walking down a list of components, each of which has to be a directory.\<close>

fun walk :: "string list set \<Rightarrow> string list \<Rightarrow> string list \<Rightarrow> exn + string list" where
  "walk ds d [] = Inr d"
| "walk ds d (x # xs) = (if enter d x \<in> ds then walk ds (enter d x) xs else Inl OSError)"

text \<open>
  \<^verbatim>\<open>str(p)\<close>, the text that is handed to the operating system: the components joined
  by slashes, a single dot for the empty relative path.
\<close>

fun join_slash :: "string list \<Rightarrow> string" where
  "join_slash [] = []"
| "join_slash [x] = x"
| "join_slash (x # y # ys) = x @ ''/'' @ join_slash (y # ys)"

definition path_str :: "ppath \<Rightarrow> string" where
  "path_str p =
     (if anchored p then ''/'' @ join_slash (parts p)
      else if parts p = [] then ''.'' else join_slash (parts p))"

text \<open>
  What a path has to pass before the tree is looked at. Python refuses a path with an
  embedded NUL character (\<^verbatim>\<open>ValueError\<close>). Linux refuses a path of \<^verbatim>\<open>PATH_MAX\<close>
  bytes or more and a component of more than \<^verbatim>\<open>NAME_MAX\<close> bytes (\<^verbatim>\<open>OSError\<close>,
  \<^verbatim>\<open>ENAMETOOLONG\<close>).
\<close>

definition NAME_MAX :: nat where
  "NAME_MAX = 255"

definition PATH_MAX :: nat where
  "PATH_MAX = 4096"

definition check_path :: "ppath \<Rightarrow> exn + unit" where
  "check_path p =
     (if list_ex (\<lambda>c. of_char c = (0::nat)) (path_str p) then Inl ValueError
      else if PATH_MAX \<le> length (path_str p) \<or> list_ex (\<lambda>x. NAME_MAX < length x) (parts p)
      then Inl OSError
      else Inr ())"

text \<open>
  The file that \<^verbatim>\<open>open(p, 'w')\<close> is about to create or truncate: all components
  but the last are walked, the last one names the file.
\<close>

definition locate :: "world \<Rightarrow> ppath \<Rightarrow> exn + string list" where
  "locate w p =
     (let start = (if anchored p then [] else cwd w) in
      if parts p = [] then Inr start
      else and_then (walk (dirs w) start (butlast (parts p)))
             (\<lambda>d. Inr (enter d (last (parts p)))))"

text \<open>
  \<^verbatim>\<open>p.write_bytes(data)\<close> and \<^verbatim>\<open>open(p, 'w')\<close> followed by writes: the path is
  checked, then the file is created or replaced; a directory cannot be opened for
  writing, and the directory of the file has to exist.
\<close>

definition write_file :: "world \<Rightarrow> ppath \<Rightarrow> fcontent \<Rightarrow> exn + world" where
  "write_file w p x =
     and_then (check_path p) (\<lambda>u.
     and_then (locate w p)
       (\<lambda>t. if t = [] \<or> t \<in> dirs w \<or> butlast t \<notin> dirs w then Inl OSError
            else Inr (w\<lparr>files := (files w)(t \<mapsto> x), history := history w @ [(t, x)]\<rparr>)))"

text \<open>
  \<^verbatim>\<open>p.mkdir(parents=True, exist_ok=True)\<close>: the path is checked, then every missing
  directory on the way is created; a file in the way is an error.
\<close>

fun mkdirs :: "(string list \<rightharpoonup> fcontent) \<Rightarrow> string list set \<Rightarrow> string list \<Rightarrow> string list
    \<Rightarrow> exn + string list set" where
  "mkdirs fs ds d [] = Inr ds"
| "mkdirs fs ds d (x # xs) =
     (if fs (enter d x) \<noteq> None then Inl OSError
      else mkdirs fs (insert (enter d x) ds) (enter d x) xs)"

definition mkdir :: "world \<Rightarrow> ppath \<Rightarrow> exn + world" where
  "mkdir w p =
     and_then (check_path p) (\<lambda>u.
     and_then (mkdirs (files w) (dirs w) (if anchored p then [] else cwd w) (parts p))
       (\<lambda>ds. Inr (w\<lparr>dirs := ds\<rparr>)))"

section \<open>The client\<close>

text \<open>
  The fields of \<^verbatim>\<open>HeatmapClient\<close>. \<open>total_frames\<close> holds whatever JSON value the
  server sent under that key.
\<close>

record client =
  server_url :: string
  output_dir :: ppath
  frames_received :: int
  total_frames :: json

text \<open>\<^verbatim>\<open>HeatmapClient.__init__\<close>. The only step that can raise is \<^verbatim>\<open>mkdir\<close>.\<close>

definition init_client :: "string \<Rightarrow> string \<Rightarrow> world \<Rightarrow> exn + (client \<times> world)" where
  "init_client url out w =
     and_then (mkdir w (Path out))
       (\<lambda>w'. Inr (\<lparr>server_url = str_replace ''https://'' [] (str_replace ''http://'' [] url),
                    output_dir = Path out,
                    frames_received = 0,
                    total_frames = JInt 0\<rparr>, w'))"

text \<open>The three endpoints, as the f-strings build them.\<close>

definition initialize_url :: "client \<Rightarrow> string" where
  "initialize_url c = ''https://'' @ server_url c @ ''/api/initialize''"

definition generate_url :: "client \<Rightarrow> string" where
  "generate_url c = ''https://'' @ server_url c @ ''/api/generate''"

definition ws_url :: "client \<Rightarrow> string" where
  "ws_url c = ''wss://'' @ server_url c @ ''/ws/frames''"


section \<open>The control phase\<close>

text \<open>
  What \<^verbatim>\<open>requests.post\<close> gives back: an exception (no connection, a timeout), or a
  response with its status code and its body, which is JSON text or is not.
\<close>

datatype http_result =
    NoResponse
  | Response nat "json option"

text \<open>
  The three steps both control calls take inside their \<^verbatim>\<open>try\<close>: the request,
  \<^verbatim>\<open>raise_for_status\<close> (which raises for the codes 400 to 599) and
  \<^verbatim>\<open>response.json()\<close>.
\<close>

fun response_json :: "http_result \<Rightarrow> exn + json" where
  "response_json NoResponse = Inl RequestException"
| "response_json (Response status body) =
     (if 400 \<le> status \<and> status < 600 then Inl HTTPError
      else case body of None \<Rightarrow> Inl JSONDecodeError | Some j \<Rightarrow> Inr j)"

text \<open>
  \<^verbatim>\<open>initialize_backend\<close>, called as \<^verbatim>\<open>main\<close> calls it (\<^verbatim>\<open>config=None\<close>). The
  argument \<open>satellites\<close> is what opening the satellite file and \<^verbatim>\<open>json.load\<close>
  give: the parsed value, or the exception of whichever of the two fails. That read
  stands before the \<^verbatim>\<open>try\<close>, so its exception leaves the function; everything from
  the request on is inside the \<^verbatim>\<open>try\<close>, whose handler returns \<^verbatim>\<open>False\<close>.
\<close>

definition initialize_backend ::
    "client \<Rightarrow> exn + json \<Rightarrow> http_result \<Rightarrow> world \<Rightarrow> (exn + bool) \<times> world" where
  "initialize_backend c satellites resp w =
     (case satellites of
        Inl e \<Rightarrow> (Inl e, w)
      | Inr sats \<Rightarrow>
          (let payload = JObj [(''satellites'', sats), (''config'', JObj [])];
               w' = w\<lparr>posts := posts w @ [(initialize_url c, payload)]\<rparr>
           in case and_then (response_json resp)
                     (\<lambda>result. dict_get result ''satellite_count'' (JInt 0)) of
                Inl e \<Rightarrow> (Inr False, w')
              | Inr count \<Rightarrow> (Inr True, w')))"

text \<open>
  \<^verbatim>\<open>start_generation\<close>: on success the field \<open>total_frames\<close> takes the value the
  server reports (0 when the key is absent).
\<close>

definition start_generation ::
    "client \<Rightarrow> int \<Rightarrow> int \<Rightarrow> string option \<Rightarrow> http_result \<Rightarrow> world
      \<Rightarrow> bool \<times> client \<times> world" where
  "start_generation c duration_seconds step_seconds start_time resp w =
     (let payload = JObj [(''duration_seconds'', JInt duration_seconds),
                          (''step_seconds'', JInt step_seconds),
                          (''start_time'', case start_time of None \<Rightarrow> JNull | Some t \<Rightarrow> JStr t)];
          w' = w\<lparr>posts := posts w @ [(generate_url c, payload)]\<rparr>
      in case and_then (response_json resp)
                (\<lambda>result. dict_get result ''total_frames'' (JInt 0)) of
           Inl e \<Rightarrow> (False, c, w')
         | Inr reported \<Rightarrow> (True, c\<lparr>total_frames := reported\<rparr>, w'))"

section \<open>The streaming phase\<close>

text \<open>
  One call of \<^verbatim>\<open>ws.recv()\<close> followed by \<^verbatim>\<open>json.loads\<close>: a message, parsed
  (\<open>None\<close> when it is not JSON), or the timeout, or another failure of the socket.
\<close>

datatype recv =
    Message "json option"
  | TimedOut
  | Dropped

text \<open>
  The \<^verbatim>\<open>status\<close> branch: only its attribute lookups matter, they raise when the
  message or its \<^verbatim>\<open>data\<close> field is not a \<^verbatim>\<open>dict\<close>.
\<close>

definition show_status :: "json \<Rightarrow> exn + json" where
  "show_status data =
     and_then (dict_get data ''data'' (JObj []))
       (\<lambda>status. dict_get status ''status'' (JStr ''unknown''))"

text \<open>
  The \<^verbatim>\<open>frame\<close> branch. The fields \<^verbatim>\<open>index\<close>, \<^verbatim>\<open>total\<close> and
  \<^verbatim>\<open>timestamp\<close> are read as well; they only reach the progress line. The counter
  moves after the write, so an exception on the way leaves client and files as they
  were.
\<close>

definition save_frame :: "client \<Rightarrow> world \<Rightarrow> json \<Rightarrow> exn + (client \<times> world)" where
  "save_frame c w data =
     and_then (dict_get data ''filename'' JNull) (\<lambda>filename.
     and_then (dict_get data ''data'' JNull) (\<lambda>frame_base64.
     and_then (b64decode frame_base64) (\<lambda>frame_bytes.
     and_then (truediv (output_dir c) filename) (\<lambda>frame_path.
     and_then (write_file w frame_path (Bytes frame_bytes)) (\<lambda>w'.
     Inr (c\<lparr>frames_received := frames_received c + 1\<rparr>, w'))))))"

text \<open>
  The body of the \<^verbatim>\<open>while True\<close> loop. Its three ways out are the
  \<^verbatim>\<open>complete\<close> message and the two handlers, which both \<^verbatim>\<open>break\<close>. A message of
  another type falls through the \<^verbatim>\<open>if\<close> chain and the loop goes on.
\<close>

datatype ending = Complete | Timeout | Error

datatype step =
    Continue "client \<times> world"
  | Break ending "client \<times> world"

definition on_message :: "client \<Rightarrow> world \<Rightarrow> json \<Rightarrow> exn + step" where
  "on_message c w data =
     and_then (dict_get data ''type'' JNull) (\<lambda>msg_type.
       if msg_type = JStr ''status'' then
         and_then (show_status data) (\<lambda>s. Inr (Continue (c, w)))
       else if msg_type = JStr ''frame'' then
         and_then (save_frame c w data) (\<lambda>s. Inr (Continue s))
       else if msg_type = JStr ''complete'' then
         and_then (dict_get data ''total_frames'' JNull) (\<lambda>reported. Inr (Break Complete (c, w)))
       else Inr (Continue (c, w)))"

fun loop_body :: "recv \<Rightarrow> client \<times> world \<Rightarrow> step" where
  "loop_body TimedOut s = Break Timeout s"
| "loop_body Dropped s = Break Error s"
| "loop_body (Message None) s = Break Error s"
| "loop_body (Message (Some data)) s =
     (case on_message (fst s) (snd s) data of Inl e \<Rightarrow> Break Error s | Inr st \<Rightarrow> st)"

text \<open>
  The loop, run on the results of the calls of \<^verbatim>\<open>recv\<close> so far. It may never end
  (a server that sends status messages for ever): \<open>Receiving\<close> is the loop waiting in
  the next \<^verbatim>\<open>recv\<close>, with the state reached; \<open>Left\<close> is the loop after a
  \<^verbatim>\<open>break\<close>, the results after that one never read.
\<close>

datatype progress =
    Receiving "client \<times> world"
  | Left ending "client \<times> world"

fun recv_loop :: "recv list \<Rightarrow> client \<times> world \<Rightarrow> progress" where
  "recv_loop [] s = Receiving s"
| "recv_loop (r # rs) s =
     (case loop_body r s of
        Continue s' \<Rightarrow> recv_loop rs s'
      | Break e s' \<Rightarrow> Left e s')"

fun state_of :: "progress \<Rightarrow> client \<times> world" where
  "state_of (Receiving s) = s"
| "state_of (Left e s) = s"

text \<open>
  The socket as the program meets it: whether \<^verbatim>\<open>create_connection\<close> succeeds, what
  the calls of \<^verbatim>\<open>recv\<close> give, and whether \<^verbatim>\<open>ws.close()\<close> succeeds.
\<close>

record socket =
  opens :: bool
  inbound :: "recv list"
  closes :: bool

text \<open>
  \<^verbatim>\<open>receive_frames\<close>. The outer \<^verbatim>\<open>try\<close> covers the connection, the loop, the close
  and the writing of \<^verbatim>\<open>metadata.txt\<close>; its handler prints and the method returns.
  The call is \<open>Pending\<close> while the loop has not left.
\<close>

definition save_metadata :: "client \<Rightarrow> world \<Rightarrow> exn + world" where
  "save_metadata c w =
     and_then (truediv (output_dir c) (JStr ''metadata.txt'')) (\<lambda>metadata_path.
       write_file w metadata_path
         (Summary (frames_received c) (total_frames c) (absolute w (output_dir c))))"

datatype call =
    Pending "client \<times> world"
  | Returned "client \<times> world"

definition receive_frames :: "socket \<Rightarrow> client \<Rightarrow> world \<Rightarrow> call" where
  "receive_frames ws c w =
     (let w0 = w\<lparr>connections := connections w @ [ws_url c]\<rparr> in
      if \<not> opens ws then Returned (c, w0)
      else case recv_loop (inbound ws) (c, w0) of
             Receiving s \<Rightarrow> Pending s
           | Left e s \<Rightarrow>
               (if \<not> closes ws then Returned s
                else case save_metadata (fst s) (snd s) of
                       Inl x \<Rightarrow> Returned s
                     | Inr w' \<Rightarrow> Returned (fst s, w')))"

section \<open>The command line program\<close>

record args =
  server :: string
  output_opt :: string
  satellite_file :: "string option"
  duration :: int
  step_size :: int
  start_time :: "string option"
  skip_init :: bool
  skip_generate :: bool

text \<open>Everything outside the program that one run of \<^verbatim>\<open>main\<close> meets.\<close>

record env =
  satellite_data :: "exn + json"
  initialize_response :: http_result
  generate_response :: http_result
  websocket :: socket

text \<open>
  The ways \<^verbatim>\<open>main\<close> ends: an exception that nothing catches, its three early
  returns, and the regular end after \<^verbatim>\<open>receive_frames\<close>; or it does not end, the
  receive loop still running. An empty \<^verbatim>\<open>--satellite-file\<close> is as good as none.
\<close>

datatype exit =
    Raised exn
  | MissingSatelliteFile
  | InitializationFailed
  | GenerationFailed
  | StillReceiving
  | TransferDone

definition main :: "args \<Rightarrow> env \<Rightarrow> world \<Rightarrow> exit \<times> client option \<times> world" where
  "main a e w =
     (case init_client (server a) (output_opt a) w of
        Inl x \<Rightarrow> (Raised x, None, w)
      | Inr (c, w0) \<Rightarrow>
          if \<not> skip_init a \<and> (satellite_file a = None \<or> satellite_file a = Some [])
          then (MissingSatelliteFile, Some c, w0)
          else
            (case (if skip_init a then (Inr True, w0)
                   else initialize_backend c (satellite_data e) (initialize_response e) w0) of
               (Inl x, w1) \<Rightarrow> (Raised x, Some c, w1)
             | (Inr False, w1) \<Rightarrow> (InitializationFailed, Some c, w1)
             | (Inr True, w1) \<Rightarrow>
                 (case (if skip_generate a then (True, c, w1)
                        else start_generation c (duration a) (step_size a) (start_time a)
                               (generate_response e) w1) of
                    (False, c2, w2) \<Rightarrow> (GenerationFailed, Some c2, w2)
                  | (True, c2, w2) \<Rightarrow>
                      (case receive_frames (websocket e) c2 w2 of
                         Pending (c3, w3) \<Rightarrow> (StillReceiving, Some c3, w3)
                       | Returned (c3, w3) \<Rightarrow> (TransferDone, Some c3, w3)))))"

section \<open>Notions the properties are stated with\<close>

text \<open>
  The output root: the directory that the output path of the client names, reached from
  the working directory (or from the root, for an absolute path).
\<close>

definition output_root :: "world \<Rightarrow> client \<Rightarrow> exn + string list" where
  "output_root w c =
     walk (dirs w) (if anchored (output_dir c) then [] else cwd w) (parts (output_dir c))"

text \<open>A file name that is one component: not empty, no slash, neither dot nor dot-dot.\<close>

definition plain_name :: "string \<Rightarrow> bool" where
  "plain_name s = (s \<noteq> [] \<and> CHR ''/'' \<notin> set s \<and> s \<noteq> ''.'' \<and> s \<noteq> ''..'')"

text \<open>The state in which a call of \<^verbatim>\<open>receive_frames\<close> is, returned or not.\<close>

fun call_state :: "call \<Rightarrow> client \<times> world" where
  "call_state (Pending s) = s"
| "call_state (Returned s) = s"

text \<open>The summary that a client in state \<open>c\<close> writes.\<close>

definition summary_of :: "client \<Rightarrow> world \<Rightarrow> fcontent" where
  "summary_of c w = Summary (frames_received c) (total_frames c) (absolute w (output_dir c))"

text \<open>
  The responses that a control call takes as a success: a status outside 400 to 599 and
  a body that is a JSON object.
\<close>

fun accepted :: "http_result \<Rightarrow> bool" where
  "accepted (Response status (Some (JObj kvs))) = (\<not> (400 \<le> status \<and> status < 600))"
| "accepted _ = False"

text \<open>Whether a string occurs in another one.\<close>

fun occurs_in :: "string \<Rightarrow> string \<Rightarrow> bool" where
  "occurs_in sub [] = (sub = [])"
| "occurs_in sub (c # cs) = (take (length sub) (c # cs) = sub \<or> occurs_in sub cs)"

text \<open>The number of frame files written so far, re-deliveries counted each time.\<close>

fun is_frame_write :: "string list \<times> fcontent \<Rightarrow> bool" where
  "is_frame_write (t, Bytes bs) = True"
| "is_frame_write (t, Summary r x d) = False"

definition frames_written :: "world \<Rightarrow> nat" where
  "frames_written w = length (filter is_frame_write (history w))"

text \<open>Whether the loop has been left.\<close>

fun left_loop :: "progress \<Rightarrow> bool" where
  "left_loop (Receiving s) = False"
| "left_loop (Left e s) = True"

text \<open>
  The number of summaries written between two states of the world: the writes since the
  first state that are not frames.
\<close>

definition summary_writes :: "world \<Rightarrow> world \<Rightarrow> nat" where
  "summary_writes w w' =
     length (filter (\<lambda>x. \<not> is_frame_write x) (drop (length (history w)) (history w')))"

text \<open>
  The state in which \<^verbatim>\<open>receive_frames\<close> enters its loop (the connection attempt
  noted), the state the loop has reached on the messages of the socket, and the
  condition under which the call gets as far as writing \<^verbatim>\<open>metadata.txt\<close>: the
  connection opened, the loop left, the socket closed, the file opened.
\<close>

definition entry :: "client \<Rightarrow> world \<Rightarrow> client \<times> world" where
  "entry c w = (c, w\<lparr>connections := connections w @ [ws_url c]\<rparr>)"

definition loop_end :: "socket \<Rightarrow> client \<Rightarrow> world \<Rightarrow> client \<times> world" where
  "loop_end ws c w = state_of (recv_loop (inbound ws) (entry c w))"

definition summary_due :: "socket \<Rightarrow> client \<Rightarrow> world \<Rightarrow> bool" where
  "summary_due ws c w =
     (opens ws \<and> left_loop (recv_loop (inbound ws) (entry c w)) \<and> closes ws
      \<and> \<not> isl (save_metadata (fst (loop_end ws c w)) (snd (loop_end ws c w))))"

text \<open>The \<^verbatim>\<open>frame\<close> message of the protocol, with all its fields.\<close>

definition frame_message :: "int \<Rightarrow> int \<Rightarrow> string \<Rightarrow> string \<Rightarrow> string \<Rightarrow> json" where
  "frame_message i n name ts d =
     JObj [(''type'', JStr ''frame''), (''index'', JInt i), (''total'', JInt n),
           (''filename'', JStr name), (''timestamp'', JStr ts), (''data'', JStr d)]"

text \<open>The state the loop has reached differs from the one it started in by frames written.\<close>

definition grown :: "client \<times> world \<Rightarrow> client \<times> world \<Rightarrow> (string list \<times> fcontent) list \<Rightarrow> bool" where
  "grown s s' new \<longleftrightarrow>
     history (snd s') = history (snd s) @ new \<and> list_all is_frame_write new
     \<and> frames_received (fst s') = frames_received (fst s) + int (length new)
     \<and> total_frames (fst s') = total_frames (fst s)
     \<and> output_dir (fst s') = output_dir (fst s)
     \<and> server_url (fst s') = server_url (fst s)
     \<and> cwd (snd s') = cwd (snd s) \<and> dirs (snd s') = dirs (snd s)
     \<and> posts (snd s') = posts (snd s) \<and> connections (snd s') = connections (snd s)"

text \<open>
  A small world for concrete runs: the process works in \<^verbatim>\<open>/app\<close>, the default output
  directory exists and is empty, and there is a directory \<^verbatim>\<open>/etc\<close>.
\<close>

definition demo_world :: world where
  "demo_world =
     \<lparr>cwd = [''app''],
      dirs = {[], [''etc''], [''app''], [''app'', ''output''],
              [''app'', ''output'', ''received_frames'']},
      files = Map.empty, history = [], posts = [], connections = []\<rparr>"

definition demo_client :: client where
  "demo_client =
     \<lparr>server_url = ''localhost:5000'', output_dir = Path ''output/received_frames'',
      frames_received = 0, total_frames = JInt 0\<rparr>"

text \<open>
  Messages for concrete runs: a frame with the two bytes of \<^verbatim>\<open>hi\<close> as payload, a
  frame message that lacks its \<^verbatim>\<open>data\<close> field, and the \<^verbatim>\<open>complete\<close> message;
  and a socket that connects, delivers the given results and closes.
\<close>

definition demo_frame :: "int \<Rightarrow> string \<Rightarrow> recv" where
  "demo_frame i name = Message (Some (frame_message i 3 name ''2024-01-01T00:00:00'' ''aGk=''))"

definition frame_without_data :: recv where
  "frame_without_data =
     Message (Some (JObj [(''type'', JStr ''frame''), (''index'', JInt 1), (''total'', JInt 3),
                          (''filename'', JStr ''frame_0001.png''),
                          (''timestamp'', JStr ''2024-01-01T00:00:10'')]))"

definition complete_message :: "int \<Rightarrow> recv" where
  "complete_message n = Message (Some (JObj [(''type'', JStr ''complete''), (''total_frames'', JInt n)]))"

definition demo_socket :: "recv list \<Rightarrow> socket" where
  "demo_socket evs = \<lparr>opens = True, inbound = evs, closes = True\<rparr>"

definition demo_root :: "string list" where
  "demo_root = [''app'', ''output'', ''received_frames'']"

text \<open>
  Command lines and surroundings for concrete runs of \<^verbatim>\<open>main\<close>: the server of the
  usage note, the default output directory; a server that answers the generation request
  with five frames to come.
\<close>

definition demo_args :: args where
  "demo_args =
     \<lparr>server = ''http://localhost:5000'', output_opt = ''output/received_frames'',
      satellite_file = None, duration = 3600, step_size = 10, start_time = None,
      skip_init = True, skip_generate = False\<rparr>"

definition demo_env :: "recv list \<Rightarrow> env" where
  "demo_env evs =
     \<lparr>satellite_data = Inr (JArr []),
      initialize_response = Response 200 (Some (JObj [(''satellite_count'', JInt 0)])),
      generate_response = Response 200 (Some (JObj [(''total_frames'', JInt 5)])),
      websocket = demo_socket evs\<rparr>"

section \<open>Basic facts\<close>

text \<open>The definitions that a concrete run unfolds.\<close>

lemmas demo_defs = frame_message_def demo_frame_def frame_without_data_def complete_message_def
  demo_socket_def demo_root_def demo_client_def demo_world_def

lemmas run_defs = on_message_def save_frame_def show_status_def write_file_def locate_def
  check_path_def path_str_def NAME_MAX_def PATH_MAX_def
  save_metadata_def absolute_def Path_def path_parts_def enter_def b64_value_def emit_def
  ws_url_def

lemmas main_defs = main_def init_client_def mkdir_def start_generation_def initialize_backend_def
  receive_frames_def generate_url_def initialize_url_def demo_args_def demo_env_def

lemma and_then_Inl [simp]: "and_then (Inl e) f = Inl e"
  by (simp add: and_then_def)

lemma and_then_Inr [simp]: "and_then (Inr x) f = f x"
  by (simp add: and_then_def)

lemma and_then_eq_Inr: "and_then m f = Inr y \<longleftrightarrow> (\<exists>x. m = Inr x \<and> f x = Inr y)"
  by (cases m) simp_all

lemma split_slash_plain: "CHR ''/'' \<notin> set s \<Longrightarrow> split_slash acc s = [acc @ s]"
  by (induction s arbitrary: acc) auto

lemma path_parts_plain: "plain_name s \<Longrightarrow> path_parts s = [s]"
  by (simp add: plain_name_def path_parts_def split_slash_plain)

lemma plain_not_absolute: "plain_name s \<Longrightarrow> take 1 s \<noteq> ''/''"
  by (cases s) (auto simp: plain_name_def)

lemma truediv_plain:
  "plain_name s \<Longrightarrow> truediv p (JStr s) = Inr (p\<lparr>parts := parts p @ [s]\<rparr>)"
  using plain_not_absolute [of s] by (simp add: path_parts_plain)

lemma locate_child:
  assumes "output_root w c = Inr root" and "plain_name s"
  shows "locate w ((output_dir c)\<lparr>parts := parts (output_dir c) @ [s]\<rparr>) = Inr (root @ [s])"
  using assms by (simp add: locate_def output_root_def enter_def plain_name_def)

lemma write_file_child:
  assumes "output_root w c = Inr root" and "plain_name s" and "root \<in> dirs w"
    and "root @ [s] \<notin> dirs w"
    and "check_path ((output_dir c)\<lparr>parts := parts (output_dir c) @ [s]\<rparr>) = Inr ()"
  shows "write_file w ((output_dir c)\<lparr>parts := parts (output_dir c) @ [s]\<rparr>) x =
    Inr (w\<lparr>files := (files w)(root @ [s] \<mapsto> x), history := history w @ [(root @ [s], x)]\<rparr>)"
  using assms by (simp add: write_file_def locate_child)

section \<open>One pass through the loop\<close>

lemma write_file_Inr:
  assumes "write_file w p x = Inr w'"
  shows "\<exists>t. check_path p = Inr () \<and> locate w p = Inr t \<and> t \<noteq> [] \<and> t \<notin> dirs w
    \<and> butlast t \<in> dirs w
    \<and> w' = w\<lparr>files := (files w)(t \<mapsto> x), history := history w @ [(t, x)]\<rparr>"
  using assms unfolding write_file_def and_then_eq_Inr
  by (auto split: if_splits)

lemma save_frame_Inr:
  assumes "save_frame c w data = Inr s'"
  shows "\<exists>filename b bs p w'. dict_get data ''filename'' JNull = Inr filename
    \<and> dict_get data ''data'' JNull = Inr b \<and> b64decode b = Inr bs
    \<and> truediv (output_dir c) filename = Inr p \<and> write_file w p (Bytes bs) = Inr w'
    \<and> s' = (c\<lparr>frames_received := frames_received c + 1\<rparr>, w')"
  using assms unfolding save_frame_def and_then_eq_Inr by blast

lemma on_message_Inr:
  assumes "on_message c w data = Inr st"
  shows "st = Continue (c, w) \<or> st = Break Complete (c, w)
    \<or> (\<exists>s'. st = Continue s' \<and> save_frame c w data = Inr s'
          \<and> dict_get data ''type'' JNull = Inr (JStr ''frame''))"
proof -
  from assms obtain msg_type where t: "dict_get data ''type'' JNull = Inr msg_type"
    and r: "(if msg_type = JStr ''status'' then
         and_then (show_status data) (\<lambda>s. Inr (Continue (c, w)))
       else if msg_type = JStr ''frame'' then
         and_then (save_frame c w data) (\<lambda>s. Inr (Continue s))
       else if msg_type = JStr ''complete'' then
         and_then (dict_get data ''total_frames'' JNull) (\<lambda>reported. Inr (Break Complete (c, w)))
       else Inr (Continue (c, w))) = Inr st"
    unfolding on_message_def and_then_eq_Inr by blast
  consider "msg_type = JStr ''status''" | "msg_type = JStr ''frame''"
    | "msg_type = JStr ''complete''"
    | "msg_type \<noteq> JStr ''status''" "msg_type \<noteq> JStr ''frame''" "msg_type \<noteq> JStr ''complete''"
    by blast
  then show ?thesis
  proof cases
    case 1
    with r show ?thesis by (auto simp: and_then_eq_Inr)
  next
    case 2
    with r t show ?thesis by (auto simp: and_then_eq_Inr)
  next
    case 3
    with r show ?thesis by (auto simp: and_then_eq_Inr)
  next
    case 4
    with r show ?thesis by simp
  qed
qed

lemma loop_body_Break: "loop_body r s = Break e s' \<Longrightarrow> s' = s"
proof (cases r)
  case (Message m)
  assume b: "loop_body r s = Break e s'"
  show ?thesis
  proof (cases m)
    case None
    with Message b show ?thesis by simp
  next
    case (Some data)
    show ?thesis
    proof (cases "on_message (fst s) (snd s) data")
      case (Inl x)
      with Message Some b show ?thesis by simp
    next
      case (Inr st)
      with Message Some b have "st = Break e s'" by simp
      with on_message_Inr [OF Inr] show ?thesis by auto
    qed
  qed
qed simp_all

lemma loop_body_Continue:
  assumes "loop_body r s = Continue s'"
  shows "s' = s \<or> (\<exists>data. r = Message (Some data) \<and> save_frame (fst s) (snd s) data = Inr s'
            \<and> dict_get data ''type'' JNull = Inr (JStr ''frame''))"
proof (cases r)
  case (Message m)
  show ?thesis
  proof (cases m)
    case None
    with Message assms show ?thesis by simp
  next
    case (Some data)
    show ?thesis
    proof (cases "on_message (fst s) (snd s) data")
      case (Inl x)
      with Message Some assms show ?thesis by simp
    next
      case (Inr st)
      with Message Some assms have "st = Continue s'" by simp
      with on_message_Inr [OF Inr] Message Some show ?thesis by auto
    qed
  qed
qed (use assms in simp_all)

text \<open>What one frame written changes.\<close>

lemma save_frame_effect:
  assumes "save_frame c w data = Inr s'"
  shows "\<exists>t bs. fst s' = c\<lparr>frames_received := frames_received c + 1\<rparr>
    \<and> snd s' = w\<lparr>files := (files w)(t \<mapsto> Bytes bs), history := history w @ [(t, Bytes bs)]\<rparr>"
proof -
  from save_frame_Inr [OF assms] obtain bs p w' where
    w: "write_file w p (Bytes bs) = Inr w'"
    and s: "s' = (c\<lparr>frames_received := frames_received c + 1\<rparr>, w')" by blast
  from write_file_Inr [OF w] s show ?thesis by auto
qed

lemma recv_loop_append:
  "recv_loop (xs @ ys) s =
     (case recv_loop xs s of Receiving s' \<Rightarrow> recv_loop ys s' | Left e s' \<Rightarrow> Left e s')"
  by (induction xs arbitrary: s) (simp_all split: step.splits)

lemma grown_refl: "grown s s []"
  by (simp add: grown_def)

lemma grown_trans: "grown s s' xs \<Longrightarrow> grown s' s'' ys \<Longrightarrow> grown s s'' (xs @ ys)"
  by (simp add: grown_def)

lemma loop_body_Continue_grown:
  assumes "loop_body r s = Continue s'"
  shows "\<exists>new. grown s s' new \<and> length new \<le> 1"
proof -
  from loop_body_Continue [OF assms] show ?thesis
  proof
    assume "s' = s"
    then show ?thesis using grown_refl [of s] by auto
  next
    assume "\<exists>data. r = Message (Some data) \<and> save_frame (fst s) (snd s) data = Inr s'
        \<and> dict_get data ''type'' JNull = Inr (JStr ''frame'')"
    then obtain data where "save_frame (fst s) (snd s) data = Inr s'" by blast
    from save_frame_effect [OF this] obtain t bs where
      "fst s' = (fst s)\<lparr>frames_received := frames_received (fst s) + 1\<rparr>"
      "snd s' = (snd s)\<lparr>files := (files (snd s))(t \<mapsto> Bytes bs),
                 history := history (snd s) @ [(t, Bytes bs)]\<rparr>" by blast
    then have "grown s s' [(t, Bytes bs)]" by (simp add: grown_def)
    then show ?thesis by force
  qed
qed

lemma recv_loop_grown: "\<exists>new. grown s (state_of (recv_loop evs s)) new"
proof (induction evs arbitrary: s)
  case Nil
  show ?case using grown_refl [of s] by auto
next
  case (Cons r rs)
  show ?case
  proof (cases "loop_body r s")
    case (Continue s1)
    from loop_body_Continue_grown [OF Continue] obtain n1 where 1: "grown s s1 n1" by blast
    from Cons.IH [of s1] obtain n2 where "grown s1 (state_of (recv_loop rs s1)) n2" by blast
    with 1 have "grown s (state_of (recv_loop rs s1)) (n1 @ n2)" by (rule grown_trans)
    with Continue show ?thesis by auto
  next
    case (Break e s1)
    then have "s1 = s" by (rule loop_body_Break)
    with Break show ?thesis using grown_refl [of s] by auto
  qed
qed

section \<open>The counter of received frames\<close>

lemma frame_message_saved:
  assumes "map_of kvs ''type'' = Some (JStr ''frame'')"
  shows "loop_body (Message (Some (JObj kvs))) (c, w) =
    (case save_frame c w (JObj kvs) of Inl x \<Rightarrow> Break Error (c, w) | Inr s \<Rightarrow> Continue s)"
  using assms by (simp add: on_message_def and_then_def split: sum.splits)

lemma grown_frames_written:
  assumes "grown s s' new"
  shows "frames_written (snd s') = frames_written (snd s) + length new"
proof -
  from assms have "history (snd s') = history (snd s) @ new" and "list_all is_frame_write new"
    by (simp_all add: grown_def)
  then show ?thesis
    by (simp add: frames_written_def list_all_iff)
qed

lemma recv_loop_counts:
  "frames_received (fst (state_of (recv_loop evs s))) =
     frames_received (fst s) + int (frames_written (snd (state_of (recv_loop evs s))) - frames_written (snd s))
   \<and> frames_written (snd s) \<le> frames_written (snd (state_of (recv_loop evs s)))"
proof -
  from recv_loop_grown [of s evs] obtain new where g: "grown s (state_of (recv_loop evs s)) new"
    by blast
  from grown_frames_written [OF g] g show ?thesis by (simp add: grown_def)
qed

lemma recv_loop_monotone:
  "frames_received (fst (state_of (recv_loop evs s)))
     \<le> frames_received (fst (state_of (recv_loop (evs @ later) s)))"
proof (cases "recv_loop evs s")
  case (Receiving s1)
  from recv_loop_grown [of s1 later] obtain new where "grown s1 (state_of (recv_loop later s1)) new"
    by blast
  then have "frames_received (fst s1) \<le> frames_received (fst (state_of (recv_loop later s1)))"
    by (simp add: grown_def)
  with Receiving show ?thesis by (simp add: recv_loop_append)
next
  case (Left e s1)
  then show ?thesis by (simp add: recv_loop_append)
qed

lemma demo_init:
  "init_client ''http://localhost:5000'' ''output/received_frames'' demo_world =
     Inr (demo_client, demo_world)"
  by (simp add: init_client_def mkdir_def demo_defs run_defs insert_absorb)

text \<open>
  Claim C8. The constructor sets \<open>frames_received\<close> to zero. Whatever the socket has
  delivered so far, the counter has grown by exactly the number of frame files written
  since the loop started: it moves only after a successful write, once for each. It never
  goes down when more is received.
\<close>

theorem frames_received_counts_writes:
  "(init_client url out w0 = Inr (c0, w1) \<longrightarrow> frames_received c0 = 0)
   \<and> frames_received (fst (state_of (recv_loop evs (c, w)))) =
       frames_received c + int (frames_written (snd (state_of (recv_loop evs (c, w)))) - frames_written w)
   \<and> frames_written w \<le> frames_written (snd (state_of (recv_loop evs (c, w))))
   \<and> frames_received (fst (state_of (recv_loop evs (c, w))))
       \<le> frames_received (fst (state_of (recv_loop (evs @ later) (c, w))))"
proof -
  have "init_client url out w0 = Inr (c0, w1) \<longrightarrow> frames_received c0 = 0"
    by (auto simp: init_client_def and_then_eq_Inr)
  moreover note recv_loop_counts [of evs "(c, w)"] recv_loop_monotone [of evs "(c, w)" later]
  ultimately show ?thesis by simp
qed


theorem frames_received_counts_writes_witness:
  "init_client ''http://localhost:5000'' ''output/received_frames'' demo_world =
     Inr (demo_client, demo_world)
   \<and> frames_received demo_client = 0
   \<and> frames_received (fst (state_of (recv_loop
        [Message (Some (frame_message 0 2 ''frame_0000.png'' ''t0'' ''aGk='')),
         Message (Some (frame_message 1 2 ''frame_0001.png'' ''t1'' ''aGk=''))]
        (demo_client, demo_world)))) = 2"
proof -
  let ?evs = "[Message (Some (frame_message 0 2 ''frame_0000.png'' ''t0'' ''aGk='')),
         Message (Some (frame_message 1 2 ''frame_0001.png'' ''t1'' ''aGk=''))]"
  have i: "init_client ''http://localhost:5000'' ''output/received_frames'' demo_world =
     Inr (demo_client, demo_world)"
    by (rule demo_init)
  have w: "frames_written (snd (state_of (recv_loop ?evs (demo_client, demo_world)))) = 2"
    by (simp add: frames_written_def demo_defs run_defs)
  have z: "frames_written demo_world = 0"
    by (simp add: frames_written_def demo_world_def)
  from frames_received_counts_writes [of "''http://localhost:5000''" "''output/received_frames''"
      demo_world demo_client demo_world ?evs demo_client demo_world "[]"] i w z
  show ?thesis by simp
qed

section \<open>A message that cannot be handled\<close>


lemma undecodable_frame_breaks:
  assumes "map_of kvs ''type'' = Some (JStr ''frame'')"
    and "dict_get (JObj kvs) ''data'' JNull = Inr v"
    and "b64decode v = Inl x"
  shows "loop_body (Message (Some (JObj kvs))) s = Break Error s"
proof -
  have "save_frame (fst s) (snd s) (JObj kvs) = Inl x"
    using assms(2,3) unfolding save_frame_def by (simp del: b64decode.simps)
  with frame_message_saved [OF assms(1), of "fst s" "snd s"] show ?thesis by simp
qed

text \<open>
  Claim C2, as the code has it. A \<^verbatim>\<open>frame\<close> message whose \<^verbatim>\<open>data\<close> field is missing
  or does not decode raises inside the loop, and the handler of the loop leaves it: the
  loop ends as an error in the state that the messages before had produced, and the
  messages after it are never read. With a socket that closes, \<^verbatim>\<open>receive_frames\<close>
  then returns, having tried to write the summary of the frames received up to there.
\<close>

theorem malformed_frame_ends_loop:
  assumes "map_of kvs ''type'' = Some (JStr ''frame'')"
    and "dict_get (JObj kvs) ''data'' JNull = Inr v"
    and "b64decode v = Inl x"
    and "opens ws" and "closes ws"
    and "inbound ws = earlier @ Message (Some (JObj kvs)) # rest"
    and "recv_loop earlier (c, w\<lparr>connections := connections w @ [ws_url c]\<rparr>) = Receiving s"
  shows "recv_loop (inbound ws) (c, w\<lparr>connections := connections w @ [ws_url c]\<rparr>) = Left Error s
    \<and> receive_frames ws c w =
        Returned (fst s, case save_metadata (fst s) (snd s) of Inl y \<Rightarrow> snd s | Inr w' \<Rightarrow> w')"
proof -
  have b: "loop_body (Message (Some (JObj kvs))) s = Break Error s"
    using assms(1-3) by (rule undecodable_frame_breaks)
  have l: "recv_loop (inbound ws) (c, w\<lparr>connections := connections w @ [ws_url c]\<rparr>) = Left Error s"
    using assms(6,7) b by (simp add: recv_loop_append)
  then have "receive_frames ws c w =
        Returned (fst s, case save_metadata (fst s) (snd s) of Inl y \<Rightarrow> snd s | Inr w' \<Rightarrow> w')"
    using assms(4,5) by (cases "save_metadata (fst s) (snd s)") (simp_all add: receive_frames_def)
  with l show ?thesis by simp
qed

theorem malformed_frame_ends_loop_witness:
  "recv_loop [demo_frame 0 ''frame_0000.png'', frame_without_data, demo_frame 2 ''frame_0002.png'']
       (demo_client, demo_world\<lparr>connections := [''wss://localhost:5000/ws/frames'']\<rparr>) =
     Left Error (demo_client\<lparr>frames_received := 1\<rparr>,
       demo_world\<lparr>files := [demo_root @ [''frame_0000.png''] \<mapsto> Bytes [104, 105]],
                   history := [(demo_root @ [''frame_0000.png''], Bytes [104, 105])],
                   connections := [''wss://localhost:5000/ws/frames'']\<rparr>)"
proof -
  let ?kvs = "[(''type'', JStr ''frame''), (''index'', JInt 1), (''total'', JInt 3),
               (''filename'', JStr ''frame_0001.png''),
               (''timestamp'', JStr ''2024-01-01T00:00:10'')]"
  let ?ws = "demo_socket [demo_frame 0 ''frame_0000.png'', frame_without_data,
               demo_frame 2 ''frame_0002.png'']"
  let ?s = "(demo_client\<lparr>frames_received := 1\<rparr>,
       demo_world\<lparr>files := [demo_root @ [''frame_0000.png''] \<mapsto> Bytes [104, 105]],
                   history := [(demo_root @ [''frame_0000.png''], Bytes [104, 105])],
                   connections := [''wss://localhost:5000/ws/frames'']\<rparr>)"
  have 1: "map_of ?kvs ''type'' = Some (JStr ''frame'')" by simp
  have 2: "dict_get (JObj ?kvs) ''data'' JNull = Inr JNull" by simp
  have 3: "b64decode JNull = Inl TypeError" by simp
  have 4: "opens ?ws" and 5: "closes ?ws" by (simp_all add: demo_socket_def)
  have 6: "inbound ?ws = [demo_frame 0 ''frame_0000.png''] @ Message (Some (JObj ?kvs))
      # [demo_frame 2 ''frame_0002.png'']"
    by (simp add: demo_socket_def frame_without_data_def)
  have 7: "recv_loop [demo_frame 0 ''frame_0000.png'']
      (demo_client, demo_world\<lparr>connections := connections demo_world @ [ws_url demo_client]\<rparr>) =
      Receiving ?s"
    by (simp add: demo_defs run_defs)
  have 8: "demo_world\<lparr>connections := connections demo_world @ [ws_url demo_client]\<rparr> =
      demo_world\<lparr>connections := [''wss://localhost:5000/ws/frames'']\<rparr>"
    by (simp add: demo_defs run_defs)
  from malformed_frame_ends_loop [OF 1 2 3 4 5 6 7] 8 show ?thesis
    by (simp add: demo_socket_def)
qed

text \<open>
  The run that the claim describes: a frame, a frame message without \<^verbatim>\<open>data\<close>, a
  second frame. The second frame is not written, and the summary counts one frame.
\<close>

theorem malformed_frame_stops_session_counterexample:
  "receive_frames (demo_socket [demo_frame 0 ''frame_0000.png'', frame_without_data,
        demo_frame 2 ''frame_0002.png'']) demo_client demo_world =
   Returned (demo_client\<lparr>frames_received := 1\<rparr>,
     demo_world\<lparr>files := [demo_root @ [''frame_0000.png''] \<mapsto> Bytes [104, 105],
                            demo_root @ [''metadata.txt''] \<mapsto> Summary 1 (JInt 0) demo_root],
                 history := [(demo_root @ [''frame_0000.png''], Bytes [104, 105]),
                             (demo_root @ [''metadata.txt''], Summary 1 (JInt 0) demo_root)],
                 connections := [''wss://localhost:5000/ws/frames'']\<rparr>)"
  by (simp add: receive_frames_def demo_defs run_defs)

section \<open>Where a frame is written\<close>

lemma frame_saved_parts:
  assumes "save_frame c w (JObj kvs) = Inr (c1, w1)"
  shows "\<exists>filename v bs p t.
      dict_get (JObj kvs) ''filename'' JNull = Inr filename
    \<and> dict_get (JObj kvs) ''data'' JNull = Inr v \<and> b64decode v = Inr bs
    \<and> truediv (output_dir c) filename = Inr p \<and> check_path p = Inr () \<and> locate w p = Inr t
    \<and> t \<noteq> [] \<and> t \<notin> dirs w \<and> butlast t \<in> dirs w
    \<and> c1 = c\<lparr>frames_received := frames_received c + 1\<rparr>
    \<and> w1 = w\<lparr>files := (files w)(t \<mapsto> Bytes bs), history := history w @ [(t, Bytes bs)]\<rparr>"
proof -
  from save_frame_Inr [OF assms] obtain filename v bs p w' where
    a: "dict_get (JObj kvs) ''filename'' JNull = Inr filename"
      "dict_get (JObj kvs) ''data'' JNull = Inr v" "b64decode v = Inr bs"
      "truediv (output_dir c) filename = Inr p"
    and w: "write_file w p (Bytes bs) = Inr w'"
    and s: "(c1, w1) = (c\<lparr>frames_received := frames_received c + 1\<rparr>, w')"
    by blast
  from write_file_Inr [OF w] obtain t where "check_path p = Inr ()" "locate w p = Inr t"
    "t \<noteq> []" "t \<notin> dirs w" "butlast t \<in> dirs w"
    "w' = w\<lparr>files := (files w)(t \<mapsto> Bytes bs), history := history w @ [(t, Bytes bs)]\<rparr>"
    by blast
  with a s show ?thesis by blast
qed

lemma locate_same_tree:
  "cwd w' = cwd w \<Longrightarrow> dirs w' = dirs w \<Longrightarrow> locate w' p = locate w p"
  by (simp add: locate_def)

lemma write_file_again:
  assumes "locate w p = Inr t" and "t \<noteq> []" and "t \<notin> dirs w" and "butlast t \<in> dirs w"
    and "check_path p = Inr ()"
  shows "write_file (w\<lparr>files := (files w)(t \<mapsto> x), history := h\<rparr>) p x =
    Inr (w\<lparr>files := (files w)(t \<mapsto> x), history := h @ [(t, x)]\<rparr>)"
proof -
  have "locate (w\<lparr>files := (files w)(t \<mapsto> x), history := h\<rparr>) p = locate w p"
    by (rule locate_same_tree) simp_all
  with assms(1) have "locate (w\<lparr>files := (files w)(t \<mapsto> x), history := h\<rparr>) p = Inr t"
    by simp
  then show ?thesis
    unfolding write_file_def using assms(2-5) by simp
qed

text \<open>
  Claim C9. When a \<^verbatim>\<open>frame\<close> message has been handled and written, handling the same
  message again succeeds as well and leaves the files as they were: the write replaces
  the file by the same bytes. The one file under that name holds the decoding of the
  \<^verbatim>\<open>data\<close> field, and no other file has appeared. (The counter moves both times.)
\<close>

theorem redelivered_frame_same_file:
  assumes "map_of kvs ''type'' = Some (JStr ''frame'')"
    and "loop_body (Message (Some (JObj kvs))) (c, w) = Continue (c1, w1)"
  shows "\<exists>c2 w2 name v bs p t.
      loop_body (Message (Some (JObj kvs))) (c1, w1) = Continue (c2, w2)
    \<and> files w2 = files w1 \<and> dirs w2 = dirs w1
    \<and> map_of kvs ''filename'' = Some (JStr name) \<and> map_of kvs ''data'' = Some v
    \<and> b64decode v = Inr bs
    \<and> truediv (output_dir c) (JStr name) = Inr p \<and> locate w p = Inr t
    \<and> files w2 t = Some (Bytes bs)
    \<and> dom (files w2) = insert t (dom (files w))"
proof -
  from assms(2) frame_message_saved [OF assms(1), of c w]
  have "save_frame c w (JObj kvs) = Inr (c1, w1)"
    by (cases "save_frame c w (JObj kvs)") simp_all
  from frame_saved_parts [OF this] obtain filename v bs p t where
    f: "dict_get (JObj kvs) ''filename'' JNull = Inr filename"
    and d: "dict_get (JObj kvs) ''data'' JNull = Inr v" and b: "b64decode v = Inr bs"
    and p: "truediv (output_dir c) filename = Inr p" and t: "locate w p = Inr t"
    and ok: "t \<noteq> []" "t \<notin> dirs w" "butlast t \<in> dirs w" "check_path p = Inr ()"
    and c1: "c1 = c\<lparr>frames_received := frames_received c + 1\<rparr>"
    and w1: "w1 = w\<lparr>files := (files w)(t \<mapsto> Bytes bs), history := history w @ [(t, Bytes bs)]\<rparr>"
    by blast
  from p obtain name where name: "filename = JStr name" by (cases filename) simp_all
  from b obtain ds where "v = JStr ds" by (cases v) simp_all
  with d have dv: "map_of kvs ''data'' = Some v" by (auto split: option.splits)
  from f name have fn: "map_of kvs ''filename'' = Some (JStr name)" by (auto split: option.splits)
  let ?w2 = "w\<lparr>files := (files w)(t \<mapsto> Bytes bs),
               history := (history w @ [(t, Bytes bs)]) @ [(t, Bytes bs)]\<rparr>"
  have "write_file w1 p (Bytes bs) = Inr ?w2"
    unfolding w1 using t ok by (rule write_file_again)
  moreover have "output_dir c1 = output_dir c" by (simp add: c1)
  ultimately have "save_frame c1 w1 (JObj kvs) =
      Inr (c1\<lparr>frames_received := frames_received c1 + 1\<rparr>, ?w2)"
    unfolding save_frame_def using f d b p
    by (simp only: and_then_Inr)
  with frame_message_saved [OF assms(1), of c1 w1]
  have l: "loop_body (Message (Some (JObj kvs))) (c1, w1) =
      Continue (c1\<lparr>frames_received := frames_received c1 + 1\<rparr>, ?w2)"
    by simp
  have "files ?w2 = files w1" "dirs ?w2 = dirs w1" "files ?w2 t = Some (Bytes bs)"
    "dom (files ?w2) = insert t (dom (files w))"
    by (simp_all add: w1)
  with l fn dv b p [unfolded name] t show ?thesis
    by (intro exI conjI) assumption+
qed


theorem redelivered_frame_same_file_witness:
  "\<exists>c2 w2. loop_body (demo_frame 0 ''frame_0000.png'')
        (demo_client\<lparr>frames_received := 1\<rparr>,
         demo_world\<lparr>files := [demo_root @ [''frame_0000.png''] \<mapsto> Bytes [104, 105]],
                     history := [(demo_root @ [''frame_0000.png''], Bytes [104, 105])]\<rparr>) =
       Continue (c2, w2)
     \<and> files w2 = [demo_root @ [''frame_0000.png''] \<mapsto> Bytes [104, 105]]"
proof -
  let ?kvs = "[(''type'', JStr ''frame''), (''index'', JInt 0), (''total'', JInt 3),
           (''filename'', JStr ''frame_0000.png''), (''timestamp'', JStr ''2024-01-01T00:00:00''),
           (''data'', JStr ''aGk='')]"
  let ?c1 = "demo_client\<lparr>frames_received := 1\<rparr>"
  let ?w1 = "demo_world\<lparr>files := [demo_root @ [''frame_0000.png''] \<mapsto> Bytes [104, 105]],
                     history := [(demo_root @ [''frame_0000.png''], Bytes [104, 105])]\<rparr>"
  have 1: "map_of ?kvs ''type'' = Some (JStr ''frame'')" by simp
  have 2: "loop_body (Message (Some (JObj ?kvs))) (demo_client, demo_world) = Continue (?c1, ?w1)"
    by (simp add: demo_defs run_defs)
  from redelivered_frame_same_file [OF 1 2] obtain c2 w2 where
    "loop_body (Message (Some (JObj ?kvs))) (?c1, ?w1) = Continue (c2, w2)"
    "files w2 = files ?w1" by blast
  then show ?thesis by (auto simp: demo_frame_def frame_message_def)
qed

section \<open>File names that lead out of the output directory\<close>

text \<open>
  Claim C4, as the code has it. The \<^verbatim>\<open>filename\<close> of a frame is joined to the output
  directory and opened, with no check in between. Whether the frame counts as received
  or ends the loop as an error is decided by the write alone: a frame whose name leads
  out of the output root is written and counted like any other, whenever the file
  system takes the write.
\<close>

theorem frame_filename_unchecked:
  assumes "map_of kvs ''type'' = Some (JStr ''frame'')"
    and "map_of kvs ''filename'' = Some (JStr name)"
    and "map_of kvs ''data'' = Some v"
    and "b64decode v = Inr bs"
    and "truediv (output_dir c) (JStr name) = Inr p"
  shows "loop_body (Message (Some (JObj kvs))) (c, w) =
    (case write_file w p (Bytes bs) of
       Inl x \<Rightarrow> Break Error (c, w)
     | Inr w' \<Rightarrow> Continue (c\<lparr>frames_received := frames_received c + 1\<rparr>, w'))"
proof -
  have "save_frame c w (JObj kvs) =
      and_then (write_file w p (Bytes bs))
        (\<lambda>w'. Inr (c\<lparr>frames_received := frames_received c + 1\<rparr>, w'))"
    unfolding save_frame_def using assms(2-5)
    by (simp del: b64decode.simps truediv.simps)
  with frame_message_saved [OF assms(1), of c w] show ?thesis
    by (cases "write_file w p (Bytes bs)") simp_all
qed

theorem frame_filename_unchecked_witness:
  "loop_body (demo_frame 0 ''/etc/motd'') (demo_client, demo_world) =
     Continue (demo_client\<lparr>frames_received := 1\<rparr>,
       demo_world\<lparr>files := [[''etc'', ''motd''] \<mapsto> Bytes [104, 105]],
                   history := [([''etc'', ''motd''], Bytes [104, 105])]\<rparr>)"
proof -
  let ?kvs = "[(''type'', JStr ''frame''), (''index'', JInt 0), (''total'', JInt 3),
           (''filename'', JStr ''/etc/motd''), (''timestamp'', JStr ''2024-01-01T00:00:00''),
           (''data'', JStr ''aGk='')]"
  have 1: "map_of ?kvs ''type'' = Some (JStr ''frame'')"
    and 2: "map_of ?kvs ''filename'' = Some (JStr ''/etc/motd'')"
    and 3: "map_of ?kvs ''data'' = Some (JStr ''aGk='')" by simp_all
  have 4: "b64decode (JStr ''aGk='') = Inr [104, 105]"
    by (simp add: b64_value_def emit_def)
  have 5: "truediv (output_dir demo_client) (JStr ''/etc/motd'') =
      Inr \<lparr>anchored = True, parts = [''etc'', ''motd'']\<rparr>"
    by (simp add: demo_client_def Path_def path_parts_def)
  have 6: "write_file demo_world \<lparr>anchored = True, parts = [''etc'', ''motd'']\<rparr> (Bytes [104, 105]) =
      Inr (demo_world\<lparr>files := [[''etc'', ''motd''] \<mapsto> Bytes [104, 105]],
                   history := [([''etc'', ''motd''], Bytes [104, 105])]\<rparr>)"
    by (simp add: demo_defs run_defs)
  from frame_filename_unchecked [OF 1 2 3 4 5, of demo_world] 6 show ?thesis
    by (simp add: demo_frame_def frame_message_def demo_client_def)
qed

text \<open>
  The name \<^verbatim>\<open>../../../etc/passwd\<close>, with the output directory
  \<^verbatim>\<open>/app/output/received_frames\<close>: the frame is written to \<^verbatim>\<open>/etc/passwd\<close>,
  outside the output root, and counted as received.
\<close>

theorem escaping_filename_written_counterexample:
  "output_root demo_world demo_client = Inr [''app'', ''output'', ''received_frames'']
   \<and> loop_body (demo_frame 0 ''../../../etc/passwd'') (demo_client, demo_world) =
       Continue (demo_client\<lparr>frames_received := 1\<rparr>,
         demo_world\<lparr>files := [[''etc'', ''passwd''] \<mapsto> Bytes [104, 105]],
                     history := [([''etc'', ''passwd''], Bytes [104, 105])]\<rparr>)"
  by (simp add: output_root_def demo_defs run_defs)

section \<open>The summary\<close>

lemma save_metadata_Inr:
  assumes "save_metadata c w = Inr w'"
  shows "\<exists>t. w' = w\<lparr>files := (files w)(t \<mapsto> summary_of c w),
                     history := history w @ [(t, summary_of c w)]\<rparr>"
proof -
  from assms obtain p where "write_file w p (summary_of c w) = Inr w'"
    unfolding save_metadata_def summary_of_def and_then_eq_Inr by blast
  from write_file_Inr [OF this] show ?thesis by blast
qed

text \<open>
  Every call of \<^verbatim>\<open>receive_frames\<close> is in a state that the loop has reached, with at
  most the summary written after it.
\<close>

lemma receive_frames_shape:
  "\<exists>s new. grown (c, w\<lparr>connections := connections w @ [ws_url c]\<rparr>) s new
     \<and> (call_state (receive_frames ws c w) = s
        \<or> (\<exists>t. call_state (receive_frames ws c w) =
              (fst s, (snd s)\<lparr>files := (files (snd s))(t \<mapsto> summary_of (fst s) (snd s)),
                   history := history (snd s) @ [(t, summary_of (fst s) (snd s))]\<rparr>)))"
proof -
  let ?s0 = "(c, w\<lparr>connections := connections w @ [ws_url c]\<rparr>)"
  show ?thesis
  proof (cases "opens ws")
    case False
    then have "call_state (receive_frames ws c w) = ?s0" by (simp add: receive_frames_def)
    with grown_refl [of ?s0] show ?thesis by blast
  next
    case True
    from recv_loop_grown [of ?s0 "inbound ws"] obtain new where
      g: "grown ?s0 (state_of (recv_loop (inbound ws) ?s0)) new" by blast
    show ?thesis
    proof (cases "recv_loop (inbound ws) ?s0")
      case (Receiving s)
      with True have "call_state (receive_frames ws c w) = s" by (simp add: receive_frames_def)
      moreover from g Receiving have "grown ?s0 s new" by simp
      ultimately show ?thesis by blast
    next
      case (Left e s)
      with g have gs: "grown ?s0 s new" by simp
      show ?thesis
      proof (cases "closes ws")
        case False
        with True Left have "call_state (receive_frames ws c w) = s"
          by (simp add: receive_frames_def)
        with gs show ?thesis by blast
      next
        case c: True
        show ?thesis
        proof (cases "save_metadata (fst s) (snd s)")
          case (Inl x)
          with True Left c have "call_state (receive_frames ws c w) = s"
            by (simp add: receive_frames_def)
          with gs show ?thesis by blast
        next
          case (Inr w')
          with True Left c have "call_state (receive_frames ws c w) = (fst s, w')"
            by (simp add: receive_frames_def)
          with save_metadata_Inr [OF Inr] gs show ?thesis by blast
        qed
      qed
    qed
  qed
qed

text \<open>
  Claim C3, as the code has it. \<^verbatim>\<open>receive_frames\<close> never assigns \<open>total_frames\<close>:
  the value that the \<^verbatim>\<open>complete\<close> message carries is only printed. So the field keeps
  the value of the control phase, and every summary written by the call records that
  value as the number of frames expected.
\<close>

theorem summary_expects_control_phase_total:
  "total_frames (fst (call_state (receive_frames ws c w))) = total_frames c
   \<and> (\<exists>new. history (snd (call_state (receive_frames ws c w))) = history w @ new
         \<and> (\<forall>t n x d. (t, Summary n x d) \<in> set new \<longrightarrow> x = total_frames c))"
proof -
  from receive_frames_shape [of c w ws] obtain s new where
    g: "grown (c, w\<lparr>connections := connections w @ [ws_url c]\<rparr>) s new"
    and r: "call_state (receive_frames ws c w) = s
        \<or> (\<exists>t. call_state (receive_frames ws c w) =
              (fst s, (snd s)\<lparr>files := (files (snd s))(t \<mapsto> summary_of (fst s) (snd s)),
                   history := history (snd s) @ [(t, summary_of (fst s) (snd s))]\<rparr>))"
    by blast
  from g have tf: "total_frames (fst s) = total_frames c"
    and h: "history (snd s) = history w @ new"
    and fr: "list_all is_frame_write new"
    by (simp_all add: grown_def)
  have nosum: "(t, Summary n x d) \<notin> set new" for t n x d
  proof
    assume "(t, Summary n x d) \<in> set new"
    with fr have "is_frame_write (t, Summary n x d)" unfolding list_all_iff by blast
    then show False by simp
  qed
  from r show ?thesis
  proof
    assume "call_state (receive_frames ws c w) = s"
    with tf h nosum show ?thesis by auto
  next
    assume "\<exists>t. call_state (receive_frames ws c w) =
              (fst s, (snd s)\<lparr>files := (files (snd s))(t \<mapsto> summary_of (fst s) (snd s)),
                   history := history (snd s) @ [(t, summary_of (fst s) (snd s))]\<rparr>)"
    then obtain t where e: "call_state (receive_frames ws c w) =
              (fst s, (snd s)\<lparr>files := (files (snd s))(t \<mapsto> summary_of (fst s) (snd s)),
                   history := history (snd s) @ [(t, summary_of (fst s) (snd s))]\<rparr>)" by blast
    have "history (snd (call_state (receive_frames ws c w))) =
        history w @ (new @ [(t, summary_of (fst s) (snd s))])"
      by (simp add: e h)
    moreover have "\<forall>t' n x d. (t', Summary n x d) \<in> set (new @ [(t, summary_of (fst s) (snd s))])
        \<longrightarrow> x = total_frames c"
      using nosum tf by (auto simp: summary_of_def)
    moreover have "total_frames (fst (call_state (receive_frames ws c w))) = total_frames c"
      by (simp add: e tf)
    ultimately show ?thesis by blast
  qed
qed


theorem summary_expects_control_phase_total_witness:
  "total_frames (fst (call_state (receive_frames
      (demo_socket [demo_frame 0 ''frame_0000.png'', complete_message 1])
      (demo_client\<lparr>total_frames := JInt 5\<rparr>) demo_world))) = JInt 5
   \<and> (demo_root @ [''metadata.txt''], Summary 1 (JInt 5) demo_root)
       \<in> set (history (snd (call_state (receive_frames
      (demo_socket [demo_frame 0 ''frame_0000.png'', complete_message 1])
      (demo_client\<lparr>total_frames := JInt 5\<rparr>) demo_world))))"
proof -
  let ?r = "receive_frames (demo_socket [demo_frame 0 ''frame_0000.png'', complete_message 1])
      (demo_client\<lparr>total_frames := JInt 5\<rparr>) demo_world"
  have h: "history (snd (call_state ?r)) =
      [(demo_root @ [''frame_0000.png''], Bytes [104, 105]),
       (demo_root @ [''metadata.txt''], Summary 1 (JInt 5) demo_root)]"
    by (simp add: receive_frames_def demo_defs run_defs)
  from summary_expects_control_phase_total
    [of "demo_socket [demo_frame 0 ''frame_0000.png'', complete_message 1]"
        "demo_client\<lparr>total_frames := JInt 5\<rparr>" demo_world]
  obtain new where t: "total_frames (fst (call_state ?r)) =
      total_frames (demo_client\<lparr>total_frames := JInt 5\<rparr>)"
    and n: "history (snd (call_state ?r)) = history demo_world @ new"
    and a: "\<forall>t n x d. (t, Summary n x d) \<in> set new \<longrightarrow>
      x = total_frames (demo_client\<lparr>total_frames := JInt 5\<rparr>)"
    by blast
  from n h have "new = [(demo_root @ [''frame_0000.png''], Bytes [104, 105]),
       (demo_root @ [''metadata.txt''], Summary 1 (JInt 5) demo_root)]"
    by (simp add: demo_world_def)
  then have m: "(demo_root @ [''metadata.txt''], Summary 1 (JInt 5) demo_root) \<in> set new"
    by simp
  with a have "JInt 5 = total_frames (demo_client\<lparr>total_frames := JInt 5\<rparr>)"
    by blast
  with t m n show ?thesis by simp
qed

text \<open>
  The run of the specification: the control phase announces five frames, three arrive,
  and \<^verbatim>\<open>complete\<close> reports three. The summary says three received, five expected.
\<close>

theorem complete_total_ignored_counterexample:
  "fst (main demo_args
         (demo_env [demo_frame 0 ''frame_0000.png'', demo_frame 1 ''frame_0001.png'',
                    demo_frame 2 ''frame_0002.png'', complete_message 3])
         demo_world) = TransferDone
   \<and> files (snd (snd (main demo_args
         (demo_env [demo_frame 0 ''frame_0000.png'', demo_frame 1 ''frame_0001.png'',
                    demo_frame 2 ''frame_0002.png'', complete_message 3])
         demo_world))) (demo_root @ [''metadata.txt'']) = Some (Summary 3 (JInt 5) demo_root)"
  by (simp add: main_defs demo_defs run_defs insert_absorb)

section \<open>The control calls\<close>

lemma control_result:
  "(\<exists>v. and_then (response_json resp) (\<lambda>result. dict_get result k d) = Inr v) = accepted resp"
proof (cases resp)
  case NoResponse
  then show ?thesis by simp
next
  case (Response status body)
  show ?thesis
  proof (cases body)
    case None
    with Response show ?thesis by simp
  next
    case (Some j)
    with Response show ?thesis by (cases j) simp_all
  qed
qed

lemma control_result_cases:
  "(accepted resp \<and> (\<exists>v. and_then (response_json resp) (\<lambda>result. dict_get result k d) = Inr v))
   \<or> (\<not> accepted resp \<and> (\<exists>x. and_then (response_json resp) (\<lambda>result. dict_get result k d) = Inl x))"
  using control_result [of resp k d]
  by (cases "and_then (response_json resp) (\<lambda>result. dict_get result k d)") auto

lemma initialize_backend_result:
  "initialize_backend c (Inr sats) resp w =
     (Inr (accepted resp),
      w\<lparr>posts := posts w @ [(initialize_url c,
            JObj [(''satellites'', sats), (''config'', JObj [])])]\<rparr>)"
  using control_result_cases [of resp "''satellite_count''" "JInt 0"]
  by (auto simp: initialize_backend_def Let_def)

lemma initialize_backend_raises: "initialize_backend c (Inl x) resp w = (Inl x, w)"
  by (simp add: initialize_backend_def)

lemma start_generation_result:
  "\<exists>c'. start_generation c d st t resp w =
     (accepted resp, c',
      w\<lparr>posts := posts w @ [(generate_url c,
            JObj [(''duration_seconds'', JInt d), (''step_seconds'', JInt st),
                  (''start_time'', case t of None \<Rightarrow> JNull | Some t' \<Rightarrow> JStr t')])]\<rparr>)
     \<and> frames_received c' = frames_received c \<and> server_url c' = server_url c
     \<and> output_dir c' = output_dir c"
  using control_result_cases [of resp "''total_frames''" "JInt 0"]
  by (auto simp: start_generation_def Let_def)

text \<open>
  Claim C6, as the code has it. Once the satellite file has been read and parsed,
  \<^verbatim>\<open>initialize_backend\<close> always returns a boolean: \<^verbatim>\<open>True\<close> for a response with a
  status outside 400 to 599 and a JSON object as body, \<^verbatim>\<open>False\<close> for every other
  outcome of the request (no response, an error status, a body that is not JSON or not an
  object). An exception from reading or parsing the file leaves the function.
\<close>

theorem initialize_backend_outcomes:
  "fst (initialize_backend c (Inr sats) resp w) = Inr (accepted resp)
   \<and> fst (initialize_backend c (Inl x) resp w) = Inl x"
  by (simp add: initialize_backend_result initialize_backend_raises)

theorem initialize_backend_outcomes_witness:
  "fst (initialize_backend demo_client (Inr (JArr [])) (Response 500 None) demo_world) = Inr False
   \<and> fst (initialize_backend demo_client (Inr (JArr [])) NoResponse demo_world) = Inr False
   \<and> fst (initialize_backend demo_client (Inr (JArr [])) (Response 200 (Some (JArr []))) demo_world)
       = Inr False
   \<and> fst (initialize_backend demo_client (Inr (JArr []))
            (Response 200 (Some (JObj [(''satellite_count'', JInt 2)]))) demo_world) = Inr True"
  using initialize_backend_outcomes [of demo_client "JArr []" "Response 500 None" demo_world OSError]
    initialize_backend_outcomes [of demo_client "JArr []" NoResponse demo_world OSError]
    initialize_backend_outcomes [of demo_client "JArr []" "Response 200 (Some (JArr []))" demo_world OSError]
    initialize_backend_outcomes [of demo_client "JArr []"
      "Response 200 (Some (JObj [(''satellite_count'', JInt 2)]))" demo_world OSError]
  by simp

text \<open>
  The satellite file cannot be opened: the \<^verbatim>\<open>OSError\<close> leaves
  \<^verbatim>\<open>initialize_backend\<close>, and \<^verbatim>\<open>main\<close> with it.
\<close>

theorem initialize_backend_raises_counterexample:
  "fst (initialize_backend demo_client (Inl OSError)
          (Response 200 (Some (JObj [(''satellite_count'', JInt 2)]))) demo_world) = Inl OSError
   \<and> fst (main (demo_args\<lparr>skip_init := False, satellite_file := Some ''missing.json''\<rparr>)
            ((demo_env [])\<lparr>satellite_data := Inl OSError\<rparr>) demo_world) = Raised OSError"
  by (simp add: main_defs demo_defs run_defs insert_absorb)


section \<open>A failed control phase\<close>

lemma init_client_Inr:
  assumes "init_client url out w = Inr (c, w0)"
  shows "frames_received c = 0" and "connections w0 = connections w" and "files w0 = files w"
    and "history w0 = history w" and "posts w0 = posts w"
  using assms by (auto simp: init_client_def mkdir_def and_then_eq_Inr)

lemma initialize_backend_world:
  "connections (snd (initialize_backend c s resp w)) = connections w
   \<and> files (snd (initialize_backend c s resp w)) = files w
   \<and> history (snd (initialize_backend c s resp w)) = history w"
  by (cases s) (simp_all add: initialize_backend_result initialize_backend_raises)

lemma start_generation_world:
  assumes "start_generation c d st t resp w = (b, c', w')"
  shows "connections w' = connections w" and "files w' = files w" and "history w' = history w"
    and "frames_received c' = frames_received c"
  using start_generation_result [of c d st t resp w] assms by auto

text \<open>The course of \<^verbatim>\<open>main\<close>, stage by stage.\<close>

lemma main_constructor_raises:
  "init_client (server a) (output_opt a) w = Inl y \<Longrightarrow> main a e w = (Raised y, None, w)"
  by (simp add: main_def)

lemma main_missing_file:
  assumes "init_client (server a) (output_opt a) w = Inr (c, w0)"
    and "\<not> skip_init a \<and> (satellite_file a = None \<or> satellite_file a = Some [])"
  shows "main a e w = (MissingSatelliteFile, Some c, w0)"
  using assms by (simp add: main_def)

lemma main_initialize:
  assumes "init_client (server a) (output_opt a) w = Inr (c, w0)"
    and "\<not> (\<not> skip_init a \<and> (satellite_file a = None \<or> satellite_file a = Some []))"
    and "(if skip_init a then (Inr True, w0)
          else initialize_backend c (satellite_data e) (initialize_response e) w0) = (r, w1)"
  shows "r = Inl y \<Longrightarrow> main a e w = (Raised y, Some c, w1)"
    and "r = Inr False \<Longrightarrow> main a e w = (InitializationFailed, Some c, w1)"
  using assms by (simp_all add: main_def)

lemma main_generate:
  assumes "init_client (server a) (output_opt a) w = Inr (c, w0)"
    and "\<not> (\<not> skip_init a \<and> (satellite_file a = None \<or> satellite_file a = Some []))"
    and "(if skip_init a then (Inr True, w0)
          else initialize_backend c (satellite_data e) (initialize_response e) w0) = (Inr True, w1)"
    and "(if skip_generate a then (True, c, w1)
          else start_generation c (duration a) (step_size a) (start_time a)
                 (generate_response e) w1) = (b, c2, w2)"
  shows "\<not> b \<Longrightarrow> main a e w = (GenerationFailed, Some c2, w2)"
    and "b \<Longrightarrow> receive_frames (websocket e) c2 w2 = Pending (c3, w3) \<Longrightarrow>
           main a e w = (StillReceiving, Some c3, w3)"
    and "b \<Longrightarrow> receive_frames (websocket e) c2 w2 = Returned (c3, w3) \<Longrightarrow>
           main a e w = (TransferDone, Some c3, w3)"
  using assms by (simp_all add: main_def)




section \<open>The addresses the client contacts\<close>

lemma str_replace_absent: "\<not> occurs_in old s \<Longrightarrow> str_replace old new s = s"
  by (induction s) auto

lemma strip_http: "str_replace ''http://'' [] (''http://'' @ s) = str_replace ''http://'' [] s"
  by simp

lemma keep_https:
  "str_replace ''http://'' [] (''https://'' @ s) = ''https://'' @ str_replace ''http://'' [] s"
  by simp

lemma strip_https: "str_replace ''https://'' [] (''https://'' @ s) = str_replace ''https://'' [] s"
  by simp

lemma init_client_scheme:
  "init_client (''http://'' @ rest) out w = init_client rest out w"
  "init_client (''https://'' @ rest) out w = init_client rest out w"
  unfolding init_client_def by (simp_all only: strip_http keep_https strip_https)

lemma init_client_server_url:
  "init_client url out w = Inr (c, w') \<Longrightarrow>
     server_url c = str_replace ''https://'' [] (str_replace ''http://'' [] url)"
  by (auto simp: init_client_def and_then_eq_Inr)

lemma receive_frames_connections:
  "connections (snd (call_state (receive_frames ws c w))) = connections w @ [ws_url c]"
proof -
  from receive_frames_shape [of c w ws] obtain s new where
    g: "grown (c, w\<lparr>connections := connections w @ [ws_url c]\<rparr>) s new"
    and r: "call_state (receive_frames ws c w) = s
        \<or> (\<exists>t. call_state (receive_frames ws c w) =
              (fst s, (snd s)\<lparr>files := (files (snd s))(t \<mapsto> summary_of (fst s) (snd s)),
                   history := history (snd s) @ [(t, summary_of (fst s) (snd s))]\<rparr>))"
    by blast
  from g have "connections (snd s) = connections w @ [ws_url c]" by (simp add: grown_def)
  with r show ?thesis by auto
qed

text \<open>
  Claim C10. A leading \<^verbatim>\<open>http://\<close> or \<^verbatim>\<open>https://\<close> of the server URL makes no
  difference to the client that is constructed: the scheme is removed. (The two calls of
  \<^verbatim>\<open>replace\<close> remove every occurrence of the two strings; for a URL without a further
  occurrence, what is stored is exactly the rest after the scheme.) The two control
  requests go to \<^verbatim>\<open>https://\<close>, and the WebSocket connection to \<^verbatim>\<open>wss://\<close>,
  followed by the stored value and the fixed path.
\<close>

theorem endpoints_use_fixed_schemes:
  "init_client (''http://'' @ rest) out w = init_client rest out w
   \<and> init_client (''https://'' @ rest) out w = init_client rest out w
   \<and> (\<not> occurs_in ''http://'' rest \<and> \<not> occurs_in ''https://'' rest
        \<and> init_client rest out w = Inr (c0, w0) \<longrightarrow> server_url c0 = rest)
   \<and> map fst (posts (snd (initialize_backend c (Inr sats) resp w))) =
       map fst (posts w) @ [''https://'' @ server_url c @ ''/api/initialize'']
   \<and> map fst (posts (snd (snd (start_generation c d st t resp w)))) =
       map fst (posts w) @ [''https://'' @ server_url c @ ''/api/generate'']
   \<and> connections (snd (call_state (receive_frames ws c w))) =
       connections w @ [''wss://'' @ server_url c @ ''/ws/frames'']"
proof -
  have "\<not> occurs_in ''http://'' rest \<and> \<not> occurs_in ''https://'' rest
        \<and> init_client rest out w = Inr (c0, w0) \<longrightarrow> server_url c0 = rest"
    using init_client_server_url [of rest out w c0 w0]
    by (auto simp: str_replace_absent)
  moreover have "map fst (posts (snd (initialize_backend c (Inr sats) resp w))) =
       map fst (posts w) @ [''https://'' @ server_url c @ ''/api/initialize'']"
    by (simp add: initialize_backend_result initialize_url_def)
  moreover have "map fst (posts (snd (snd (start_generation c d st t resp w)))) =
       map fst (posts w) @ [''https://'' @ server_url c @ ''/api/generate'']"
    using start_generation_result [of c d st t resp w] by (auto simp: generate_url_def)
  moreover have "connections (snd (call_state (receive_frames ws c w))) =
       connections w @ [''wss://'' @ server_url c @ ''/ws/frames'']"
    by (simp add: receive_frames_connections ws_url_def)
  ultimately show ?thesis using init_client_scheme [of rest out w] by blast
qed

theorem endpoints_use_fixed_schemes_witness:
  "init_client ''http://localhost:5000'' ''output/received_frames'' demo_world =
     Inr (demo_client, demo_world)
   \<and> init_client ''https://localhost:5000'' ''output/received_frames'' demo_world =
     Inr (demo_client, demo_world)
   \<and> server_url demo_client = ''localhost:5000''
   \<and> connections (snd (call_state (receive_frames (demo_socket []) demo_client demo_world))) =
       [''wss://localhost:5000/ws/frames'']"
proof -
  have i: "init_client ''localhost:5000'' ''output/received_frames'' demo_world =
     Inr (demo_client, demo_world)"
    by (simp add: init_client_def mkdir_def demo_defs run_defs insert_absorb)
  have n: "\<not> occurs_in ''http://'' ''localhost:5000''" "\<not> occurs_in ''https://'' ''localhost:5000''"
    by simp_all
  from endpoints_use_fixed_schemes [of "''localhost:5000''" "''output/received_frames''" demo_world
      demo_client demo_world demo_client "JArr []" NoResponse 3600 10 None "demo_socket []"] i n
  show ?thesis by (simp add: demo_client_def demo_world_def)
qed

section \<open>When the summary is written\<close>

lemma plain_metadata: "plain_name ''metadata.txt''"
  by (simp add: plain_name_def)

text \<open>The four ways through \<^verbatim>\<open>receive_frames\<close>.\<close>

lemma receive_frames_refused:
  "\<not> opens ws \<Longrightarrow>
     receive_frames ws c w = Returned (c, w\<lparr>connections := connections w @ [ws_url c]\<rparr>)"
  by (simp add: receive_frames_def)

lemma receive_frames_pending:
  assumes "opens ws"
    and "recv_loop (inbound ws) (c, w\<lparr>connections := connections w @ [ws_url c]\<rparr>) = Receiving s"
  shows "receive_frames ws c w = Pending s"
  using assms by (simp add: receive_frames_def)

lemma receive_frames_no_summary:
  assumes "opens ws"
    and "recv_loop (inbound ws) (c, w\<lparr>connections := connections w @ [ws_url c]\<rparr>) = Left e s"
    and "\<not> closes ws \<or> isl (save_metadata (fst s) (snd s))"
  shows "receive_frames ws c w = Returned s"
  using assms by (cases "save_metadata (fst s) (snd s)") (auto simp: receive_frames_def)

lemma receive_frames_summary:
  assumes "opens ws"
    and "recv_loop (inbound ws) (c, w\<lparr>connections := connections w @ [ws_url c]\<rparr>) = Left e s"
    and "closes ws" and "save_metadata (fst s) (snd s) = Inr w'"
  shows "receive_frames ws c w = Returned (fst s, w')"
  using assms by (simp add: receive_frames_def)

lemma summary_writes_frames:
  assumes "history w' = history w @ new" and "list_all is_frame_write new"
  shows "summary_writes w w' = 0"
    and "summary_writes w (w'\<lparr>files := f, history := history w' @ [(t, summary_of c v)]\<rparr>) = 1"
  using assms by (simp_all add: summary_writes_def summary_of_def list_all_iff)


lemma loop_history:
  "\<exists>new. grown (c, w\<lparr>connections := connections w @ [ws_url c]\<rparr>)
       (state_of (recv_loop (inbound ws) (c, w\<lparr>connections := connections w @ [ws_url c]\<rparr>))) new
     \<and> history (snd (state_of (recv_loop (inbound ws)
           (c, w\<lparr>connections := connections w @ [ws_url c]\<rparr>)))) = history w @ new
     \<and> list_all is_frame_write new"
proof -
  from recv_loop_grown [of "(c, w\<lparr>connections := connections w @ [ws_url c]\<rparr>)" "inbound ws"]
  obtain new where g: "grown (c, w\<lparr>connections := connections w @ [ws_url c]\<rparr>)
       (state_of (recv_loop (inbound ws) (c, w\<lparr>connections := connections w @ [ws_url c]\<rparr>))) new"
    by blast
  then show ?thesis by (auto simp: grown_def)
qed

text \<open>How many summaries a call of \<^verbatim>\<open>receive_frames\<close> writes, and which.\<close>

lemma receive_frames_summaries:
  fixes ws c w
  defines "w0 \<equiv> w\<lparr>connections := connections w @ [ws_url c]\<rparr>"
  defines "s \<equiv> state_of (recv_loop (inbound ws) (c, w0))"
  defines "r \<equiv> receive_frames ws c w"
  shows "summary_writes w (snd (call_state r)) =
      (if opens ws \<and> left_loop (recv_loop (inbound ws) (c, w0)) \<and> closes ws
          \<and> \<not> isl (save_metadata (fst s) (snd s)) then 1 else 0)"
    and "opens ws \<and> left_loop (recv_loop (inbound ws) (c, w0)) \<and> closes ws
          \<and> \<not> isl (save_metadata (fst s) (snd s)) \<longrightarrow>
        (\<exists>t. r = Returned (fst s,
            (snd s)\<lparr>files := (files (snd s))(t \<mapsto> summary_of (fst s) (snd s)),
                    history := history (snd s) @ [(t, summary_of (fst s) (snd s))]\<rparr>))"
proof -
  from loop_history [of c w ws] obtain new where
    h: "history (snd s) = history w @ new" and f: "list_all is_frame_write new"
    unfolding s_def w0_def by blast
  note z = summary_writes_frames [OF h f]
  have "summary_writes w (snd (call_state r)) =
      (if opens ws \<and> left_loop (recv_loop (inbound ws) (c, w0)) \<and> closes ws
          \<and> \<not> isl (save_metadata (fst s) (snd s)) then 1 else 0)
    \<and> (opens ws \<and> left_loop (recv_loop (inbound ws) (c, w0)) \<and> closes ws
          \<and> \<not> isl (save_metadata (fst s) (snd s)) \<longrightarrow>
        (\<exists>t. r = Returned (fst s,
            (snd s)\<lparr>files := (files (snd s))(t \<mapsto> summary_of (fst s) (snd s)),
                    history := history (snd s) @ [(t, summary_of (fst s) (snd s))]\<rparr>)))"
  proof (cases "opens ws")
    case False
    then have "r = Returned (c, w0)" unfolding r_def w0_def by (rule receive_frames_refused)
    then have "summary_writes w (snd (call_state r)) = 0"
      by (simp add: summary_writes_def w0_def)
    with False show ?thesis by simp
  next
    case o: True
    show ?thesis
    proof (cases "recv_loop (inbound ws) (c, w0)")
      case (Receiving s1)
      then have "s = s1" by (simp add: s_def)
      moreover from o Receiving have "r = Pending s1"
        unfolding r_def w0_def by (intro receive_frames_pending) simp_all
      ultimately have "summary_writes w (snd (call_state r)) = 0" using z(1) by simp
      with Receiving show ?thesis by simp
    next
      case (Left e s1)
      then have s1: "s = s1" by (simp add: s_def)
      show ?thesis
      proof (cases "closes ws \<and> \<not> isl (save_metadata (fst s) (snd s))")
        case False
        with o Left s1 have "r = Returned s"
          unfolding r_def w0_def by (intro receive_frames_no_summary [of ws c w e]) auto
        then have "summary_writes w (snd (call_state r)) = 0" using z(1) by simp
        with False show ?thesis by auto
      next
        case True
        then obtain w' where m: "save_metadata (fst s) (snd s) = Inr w'"
          by (cases "save_metadata (fst s) (snd s)") auto
        from save_metadata_Inr [OF m] obtain t where
          w': "w' = (snd s)\<lparr>files := (files (snd s))(t \<mapsto> summary_of (fst s) (snd s)),
                     history := history (snd s) @ [(t, summary_of (fst s) (snd s))]\<rparr>"
          by blast
        from o Left s1 True m have r: "r = Returned (fst s, w')"
          unfolding r_def w0_def by (intro receive_frames_summary [of ws c w e]) auto
        have "summary_writes w w' = 1" unfolding w' by (rule z(2))
        with r w' o Left True show ?thesis by auto
      qed
    qed
  qed
  then show "summary_writes w (snd (call_state r)) =
      (if opens ws \<and> left_loop (recv_loop (inbound ws) (c, w0)) \<and> closes ws
          \<and> \<not> isl (save_metadata (fst s) (snd s)) then 1 else 0)"
    and "opens ws \<and> left_loop (recv_loop (inbound ws) (c, w0)) \<and> closes ws
          \<and> \<not> isl (save_metadata (fst s) (snd s)) \<longrightarrow>
        (\<exists>t. r = Returned (fst s,
            (snd s)\<lparr>files := (files (snd s))(t \<mapsto> summary_of (fst s) (snd s)),
                    history := history (snd s) @ [(t, summary_of (fst s) (snd s))]\<rparr>))"
    by blast+
qed


lemma save_metadata_ok:
  assumes "grown (entry c w) s new"
    and "output_root w c = Inr root" and "root \<in> dirs w"
    and "root @ [''metadata.txt''] \<notin> dirs w"
    and "check_path ((output_dir c)\<lparr>parts := parts (output_dir c) @ [''metadata.txt'']\<rparr>) = Inr ()"
  shows "save_metadata (fst s) (snd s) =
      Inr ((snd s)\<lparr>files := (files (snd s))(root @ [''metadata.txt''] \<mapsto> summary_of (fst s) (snd s)),
                   history := history (snd s) @ [(root @ [''metadata.txt''], summary_of (fst s) (snd s))]\<rparr>)"
    and "summary_of (fst s) (snd s) =
      Summary (frames_received (fst s)) (total_frames c) (absolute w (output_dir c))"
proof -
  from assms(1) have d: "dirs (snd s) = dirs w" and o: "output_dir (fst s) = output_dir c"
    and t: "total_frames (fst s) = total_frames c" and cw: "cwd (snd s) = cwd w"
    by (simp_all add: grown_def entry_def)
  have "output_root (snd s) (fst s) = output_root w c"
    by (simp add: output_root_def d o cw)
  with assms(2) have r: "output_root (snd s) (fst s) = Inr root" by simp
  have "write_file (snd s) ((output_dir (fst s))\<lparr>parts := parts (output_dir (fst s)) @ [''metadata.txt'']\<rparr>)
      (summary_of (fst s) (snd s)) =
    Inr ((snd s)\<lparr>files := (files (snd s))(root @ [''metadata.txt''] \<mapsto> summary_of (fst s) (snd s)),
            history := history (snd s) @ [(root @ [''metadata.txt''], summary_of (fst s) (snd s))]\<rparr>)"
    using r assms(3-5) d o plain_metadata by (intro write_file_child) simp_all
  then show "save_metadata (fst s) (snd s) =
      Inr ((snd s)\<lparr>files := (files (snd s))(root @ [''metadata.txt''] \<mapsto> summary_of (fst s) (snd s)),
                   history := history (snd s) @ [(root @ [''metadata.txt''], summary_of (fst s) (snd s))]\<rparr>)"
    unfolding save_metadata_def summary_of_def
    by (simp add: truediv_plain [OF plain_metadata] del: truediv.simps)
  show "summary_of (fst s) (snd s) =
      Summary (frames_received (fst s)) (total_frames c) (absolute w (output_dir c))"
    by (simp add: summary_of_def t o cw absolute_def)
qed

text \<open>Where \<^verbatim>\<open>main\<close> ends, and what it has written by then.\<close>

lemma main_course:
  assumes "main a e w = (x, co, w')"
  shows "(x \<noteq> StillReceiving \<and> x \<noteq> TransferDone \<and> history w' = history w \<and> files w' = files w)
    \<or> (\<exists>c2 w2. history w2 = history w \<and> files w2 = files w
          \<and> w' = snd (call_state (receive_frames (websocket e) c2 w2))
          \<and> ((x = StillReceiving \<and> (\<exists>s. receive_frames (websocket e) c2 w2 = Pending s))
             \<or> (x = TransferDone \<and> (\<exists>s. receive_frames (websocket e) c2 w2 = Returned s))))"
proof (cases "init_client (server a) (output_opt a) w")
  case (Inl y)
  from main_constructor_raises [OF Inl, of e] assms show ?thesis by auto
next
  case (Inr p)
  obtain c w0 where p: "p = (c, w0)" by (cases p)
  note ic = Inr [unfolded p]
  note i = init_client_Inr [OF ic]
  show ?thesis
  proof (cases "\<not> skip_init a \<and> (satellite_file a = None \<or> satellite_file a = Some [])")
    case True
    from main_missing_file [OF ic True, of e] assms i show ?thesis by auto
  next
    case nm: False
    obtain r w1 where r1: "(if skip_init a then (Inr True, w0)
          else initialize_backend c (satellite_data e) (initialize_response e) w0) = (r, w1)"
      by (cases "if skip_init a then (Inr True, w0)
          else initialize_backend c (satellite_data e) (initialize_response e) w0")
    have w1: "files w1 = files w" "history w1 = history w"
      using i r1 initialize_backend_world [of c "satellite_data e" "initialize_response e" w0]
      by (auto split: if_splits)
    show ?thesis
    proof (cases r)
      case (Inl y)
      from main_initialize(1) [OF ic nm r1 Inl] assms w1 show ?thesis by auto
    next
      case r: (Inr ok)
      show ?thesis
      proof (cases ok)
        case False
        with r main_initialize(2) [OF ic nm r1] assms w1 show ?thesis by auto
      next
        case True
        with r r1 have r1': "(if skip_init a then (Inr True, w0)
          else initialize_backend c (satellite_data e) (initialize_response e) w0) = (Inr True, w1)"
          by simp
        obtain b c2 w2 where r2: "(if skip_generate a then (True, c, w1)
          else start_generation c (duration a) (step_size a) (start_time a)
                 (generate_response e) w1) = (b, c2, w2)"
          by (cases "if skip_generate a then (True, c, w1)
          else start_generation c (duration a) (step_size a) (start_time a)
                 (generate_response e) w1")
        have w2: "files w2 = files w" "history w2 = history w"
          using r2 w1 start_generation_world [of c "duration a" "step_size a" "start_time a"
                "generate_response e" w1 b c2 w2]
          by (auto split: if_splits)
        show ?thesis
        proof (cases b)
          case False
          from main_generate(1) [OF ic nm r1' r2 False] assms w2 show ?thesis by auto
        next
          case b: True
          show ?thesis
          proof (cases "receive_frames (websocket e) c2 w2")
            case (Pending s)
            obtain c3 w3 where s: "s = (c3, w3)" by (cases s)
            from main_generate(2) [OF ic nm r1' r2 b Pending [unfolded s]] assms
            have "x = StillReceiving" "w' = w3" by auto
            with Pending s have "x = StillReceiving"
              "w' = snd (call_state (receive_frames (websocket e) c2 w2))"
              "\<exists>s. receive_frames (websocket e) c2 w2 = Pending s" by simp_all
            with w2 show ?thesis by blast
          next
            case (Returned s)
            obtain c3 w3 where s: "s = (c3, w3)" by (cases s)
            from main_generate(3) [OF ic nm r1' r2 b Returned [unfolded s]] assms
            have "x = TransferDone" "w' = w3" by auto
            with Returned s have "x = TransferDone"
              "w' = snd (call_state (receive_frames (websocket e) c2 w2))"
              "\<exists>s. receive_frames (websocket e) c2 w2 = Returned s" by simp_all
            with w2 show ?thesis by blast
          qed
        qed
      qed
    qed
  qed
qed

lemma summary_writes_same_start:
  "history w2 = history w \<Longrightarrow> summary_writes w w' = summary_writes w2 w'"
  by (simp add: summary_writes_def)

lemma summary_writes_none: "history w' = history w \<Longrightarrow> summary_writes w w' = 0"
  by (simp add: summary_writes_def)


text \<open>
  Claim C5, as the code has it. A run writes at most one summary. A call of
  \<^verbatim>\<open>receive_frames\<close> writes one exactly when it gets as far: the connection was
  opened, the loop was left (by the \<^verbatim>\<open>complete\<close> message, a timeout or an error),
  the socket closed and \<^verbatim>\<open>metadata.txt\<close> could be opened. The summary is then the
  last write of the call and holds the frames received, the frames the control phase
  announced and the output directory. The file can be opened whenever the output
  directory exists, \<^verbatim>\<open>metadata.txt\<close> is not a directory in it and the path passes the
  checks of the operating system. In every other case the call writes no summary; with a
  connection that cannot be opened it returns at once. When \<^verbatim>\<open>main\<close> ends anywhere
  but after \<^verbatim>\<open>receive_frames\<close> has returned, no summary has been written, and when it
  ends before the call (an exception, a missing satellite file, a failed control
  request), nothing has been written at all.
\<close>

theorem summary_written_exactly_when:
  "summary_writes w (snd (call_state (receive_frames ws c w))) =
      (if summary_due ws c w then 1 else 0)
   \<and> (summary_due ws c w \<longrightarrow>
        (\<exists>t. receive_frames ws c w = Returned (fst (loop_end ws c w),
            (snd (loop_end ws c w))
              \<lparr>files := (files (snd (loop_end ws c w)))
                   (t \<mapsto> Summary (frames_received (fst (loop_end ws c w))) (total_frames c)
                          (absolute w (output_dir c))),
               history := history (snd (loop_end ws c w)) @
                   [(t, Summary (frames_received (fst (loop_end ws c w))) (total_frames c)
                          (absolute w (output_dir c)))]\<rparr>)))
   \<and> (opens ws \<and> left_loop (recv_loop (inbound ws) (entry c w)) \<and> closes ws
        \<and> output_root w c = Inr root \<and> root \<in> dirs w \<and> root @ [''metadata.txt''] \<notin> dirs w
        \<and> check_path ((output_dir c)\<lparr>parts := parts (output_dir c) @ [''metadata.txt'']\<rparr>) = Inr ()
       \<longrightarrow> summary_due ws c w
           \<and> files (snd (call_state (receive_frames ws c w))) (root @ [''metadata.txt'']) =
               Some (Summary (frames_received (fst (loop_end ws c w))) (total_frames c)
                          (absolute w (output_dir c))))
   \<and> (\<not> opens ws \<longrightarrow> receive_frames ws c w = Returned (entry c w))
   \<and> (main a e w0 = (x, co, w') \<longrightarrow>
         summary_writes w0 w' \<le> 1
       \<and> (x \<noteq> TransferDone \<longrightarrow> summary_writes w0 w' = 0)
       \<and> (x \<noteq> TransferDone \<and> x \<noteq> StillReceiving \<longrightarrow> history w' = history w0 \<and> files w' = files w0))"
proof -
  let ?s = "loop_end ws c w"
  let ?S = "Summary (frames_received (fst ?s)) (total_frames c) (absolute w (output_dir c))"
  from recv_loop_grown [of "entry c w" "inbound ws"] obtain new where
    g: "grown (entry c w) ?s new" unfolding loop_end_def by blast
  then have sm: "summary_of (fst ?s) (snd ?s) = ?S"
    by (simp add: summary_of_def grown_def entry_def absolute_def)
  note rs = receive_frames_summaries [where ws = ws and c = c and w = w, folded entry_def, folded loop_end_def,
      folded summary_due_def]
  have 1: "summary_writes w (snd (call_state (receive_frames ws c w))) =
      (if summary_due ws c w then 1 else 0)"
    by (rule rs(1))
  have 2: "summary_due ws c w \<longrightarrow>
        (\<exists>t. receive_frames ws c w = Returned (fst ?s,
            (snd ?s)\<lparr>files := (files (snd ?s))(t \<mapsto> ?S),
               history := history (snd ?s) @ [(t, ?S)]\<rparr>))"
    using rs(2) sm by simp
  have 3: "opens ws \<and> left_loop (recv_loop (inbound ws) (entry c w)) \<and> closes ws
        \<and> output_root w c = Inr root \<and> root \<in> dirs w \<and> root @ [''metadata.txt''] \<notin> dirs w
        \<and> check_path ((output_dir c)\<lparr>parts := parts (output_dir c) @ [''metadata.txt'']\<rparr>) = Inr ()
       \<longrightarrow> summary_due ws c w
           \<and> files (snd (call_state (receive_frames ws c w))) (root @ [''metadata.txt'']) = Some ?S"
  proof
    assume a: "opens ws \<and> left_loop (recv_loop (inbound ws) (entry c w)) \<and> closes ws
        \<and> output_root w c = Inr root \<and> root \<in> dirs w \<and> root @ [''metadata.txt''] \<notin> dirs w
        \<and> check_path ((output_dir c)\<lparr>parts := parts (output_dir c) @ [''metadata.txt'']\<rparr>) = Inr ()"
    then have m: "save_metadata (fst ?s) (snd ?s) =
      Inr ((snd ?s)\<lparr>files := (files (snd ?s))(root @ [''metadata.txt''] \<mapsto> summary_of (fst ?s) (snd ?s)),
                   history := history (snd ?s) @ [(root @ [''metadata.txt''], summary_of (fst ?s) (snd ?s))]\<rparr>)"
      by (intro save_metadata_ok(1) [OF g]) simp_all
    with a have d: "summary_due ws c w" by (simp add: summary_due_def)
    from a obtain e1 where l: "recv_loop (inbound ws) (entry c w) = Left e1 ?s"
      by (cases "recv_loop (inbound ws) (entry c w)") (auto simp: loop_end_def)
    from a l m have "receive_frames ws c w = Returned (fst ?s,
        (snd ?s)\<lparr>files := (files (snd ?s))(root @ [''metadata.txt''] \<mapsto> summary_of (fst ?s) (snd ?s)),
                   history := history (snd ?s) @ [(root @ [''metadata.txt''], summary_of (fst ?s) (snd ?s))]\<rparr>)"
      by (intro receive_frames_summary [of ws c w e1]) (simp_all add: entry_def)
    with sm d show "summary_due ws c w
           \<and> files (snd (call_state (receive_frames ws c w))) (root @ [''metadata.txt'']) = Some ?S"
      by simp
  qed
  have 4: "\<not> opens ws \<longrightarrow> receive_frames ws c w = Returned (entry c w)"
    by (simp add: receive_frames_refused entry_def)
  have 5: "main a e w0 = (x, co, w') \<longrightarrow>
         summary_writes w0 w' \<le> 1
       \<and> (x \<noteq> TransferDone \<longrightarrow> summary_writes w0 w' = 0)
       \<and> (x \<noteq> TransferDone \<and> x \<noteq> StillReceiving \<longrightarrow> history w' = history w0 \<and> files w' = files w0)"
  proof
    assume "main a e w0 = (x, co, w')"
    from main_course [OF this] show "summary_writes w0 w' \<le> 1
       \<and> (x \<noteq> TransferDone \<longrightarrow> summary_writes w0 w' = 0)
       \<and> (x \<noteq> TransferDone \<and> x \<noteq> StillReceiving \<longrightarrow> history w' = history w0 \<and> files w' = files w0)"
    proof
      assume "x \<noteq> StillReceiving \<and> x \<noteq> TransferDone \<and> history w' = history w0 \<and> files w' = files w0"
      then show ?thesis by (simp add: summary_writes_none)
    next
      assume "\<exists>c2 w2. history w2 = history w0 \<and> files w2 = files w0
          \<and> w' = snd (call_state (receive_frames (websocket e) c2 w2))
          \<and> ((x = StillReceiving \<and> (\<exists>s. receive_frames (websocket e) c2 w2 = Pending s))
             \<or> (x = TransferDone \<and> (\<exists>s. receive_frames (websocket e) c2 w2 = Returned s)))"
      then obtain c2 w2 where h: "history w2 = history w0"
        and w': "w' = snd (call_state (receive_frames (websocket e) c2 w2))"
        and k: "(x = StillReceiving \<and> (\<exists>s. receive_frames (websocket e) c2 w2 = Pending s))
             \<or> (x = TransferDone \<and> (\<exists>s. receive_frames (websocket e) c2 w2 = Returned s))"
        by blast
      note rs2 = receive_frames_summaries [where ws = "websocket e" and c = c2 and w = w2]
      have n: "summary_writes w0 w' =
          (if opens (websocket e) \<and> left_loop (recv_loop (inbound (websocket e))
                (c2, w2\<lparr>connections := connections w2 @ [ws_url c2]\<rparr>)) \<and> closes (websocket e)
              \<and> \<not> isl (save_metadata
                   (fst (state_of (recv_loop (inbound (websocket e))
                      (c2, w2\<lparr>connections := connections w2 @ [ws_url c2]\<rparr>))))
                   (snd (state_of (recv_loop (inbound (websocket e))
                      (c2, w2\<lparr>connections := connections w2 @ [ws_url c2]\<rparr>))))) then 1 else 0)"
        using rs2(1) summary_writes_same_start [OF h, of w'] w' by simp
      then have le: "summary_writes w0 w' \<le> 1" by simp
      from k show ?thesis
      proof
        assume "x = StillReceiving \<and> (\<exists>s. receive_frames (websocket e) c2 w2 = Pending s)"
        then obtain s where x: "x = StillReceiving"
          and p: "receive_frames (websocket e) c2 w2 = Pending s" by blast
        from rs2(2) p have "\<not> (opens (websocket e) \<and> left_loop (recv_loop (inbound (websocket e))
                (c2, w2\<lparr>connections := connections w2 @ [ws_url c2]\<rparr>)) \<and> closes (websocket e)
              \<and> \<not> isl (save_metadata
                   (fst (state_of (recv_loop (inbound (websocket e))
                      (c2, w2\<lparr>connections := connections w2 @ [ws_url c2]\<rparr>))))
                   (snd (state_of (recv_loop (inbound (websocket e))
                      (c2, w2\<lparr>connections := connections w2 @ [ws_url c2]\<rparr>))))))"
          by auto
        with n have "summary_writes w0 w' = 0" by simp
        with x le show ?thesis by simp
      next
        assume "x = TransferDone \<and> (\<exists>s. receive_frames (websocket e) c2 w2 = Returned s)"
        with le show ?thesis by simp
      qed
    qed
  qed
  from 1 2 3 4 5 show ?thesis by blast
qed

theorem summary_written_exactly_when_witness:
  "summary_writes demo_world (snd (call_state
       (receive_frames (demo_socket [demo_frame 0 ''frame_0000.png'', TimedOut])
          demo_client demo_world))) = 1
   \<and> files (snd (call_state
       (receive_frames (demo_socket [demo_frame 0 ''frame_0000.png'', TimedOut])
          demo_client demo_world))) (demo_root @ [''metadata.txt'']) =
       Some (Summary 1 (JInt 0) demo_root)
   \<and> receive_frames \<lparr>opens = False, inbound = [demo_frame 0 ''frame_0000.png''], closes = True\<rparr>
         demo_client demo_world =
       Returned (demo_client, demo_world\<lparr>connections := [''wss://localhost:5000/ws/frames'']\<rparr>)
   \<and> summary_writes demo_world
         (demo_world\<lparr>posts := [(''https://localhost:5000/api/initialize'',
                              JObj [(''satellites'', JArr []), (''config'', JObj [])])]\<rparr>) = 0"
proof -
  let ?ws = "demo_socket [demo_frame 0 ''frame_0000.png'', TimedOut]"
  let ?no = "\<lparr>opens = False, inbound = [demo_frame 0 ''frame_0000.png''], closes = True\<rparr>"
  let ?a = "demo_args\<lparr>skip_init := False, satellite_file := Some ''satellites.json''\<rparr>"
  let ?e = "(demo_env [])\<lparr>initialize_response := Response 500 None\<rparr>"
  let ?w = "demo_world\<lparr>posts := [(''https://localhost:5000/api/initialize'',
                              JObj [(''satellites'', JArr []), (''config'', JObj [])])]\<rparr>"
  have o: "opens ?ws" "closes ?ws" "\<not> opens ?no" by (simp_all add: demo_socket_def)
  have l: "recv_loop (inbound ?ws) (entry demo_client demo_world) =
      Left Timeout (demo_client\<lparr>frames_received := 1\<rparr>,
        demo_world\<lparr>files := [demo_root @ [''frame_0000.png''] \<mapsto> Bytes [104, 105]],
                    history := [(demo_root @ [''frame_0000.png''], Bytes [104, 105])],
                    connections := [''wss://localhost:5000/ws/frames'']\<rparr>)"
    by (simp add: entry_def demo_defs run_defs)
  have r: "output_root demo_world demo_client = Inr demo_root"
    "demo_root \<in> dirs demo_world" "demo_root @ [''metadata.txt''] \<notin> dirs demo_world"
    "check_path ((output_dir demo_client)\<lparr>parts := parts (output_dir demo_client) @ [''metadata.txt'']\<rparr>)
       = Inr ()"
    by (simp_all add: output_root_def demo_defs run_defs)
  have m: "main ?a ?e demo_world = (InitializationFailed, Some demo_client, ?w)"
    by (simp add: main_defs demo_defs run_defs insert_absorb)
  note t1 = summary_written_exactly_when [of demo_world ?ws demo_client demo_root
      ?a ?e demo_world InitializationFailed "Some demo_client" ?w]
  note t2 = summary_written_exactly_when [of demo_world ?no demo_client demo_root
      ?a ?e demo_world InitializationFailed "Some demo_client" ?w]
  from t1 o l r have d: "summary_due ?ws demo_client demo_world"
    and f: "files (snd (call_state (receive_frames ?ws demo_client demo_world)))
        (demo_root @ [''metadata.txt'']) =
      Some (Summary (frames_received (fst (loop_end ?ws demo_client demo_world)))
        (total_frames demo_client) (absolute demo_world (output_dir demo_client)))"
    by simp_all
  from t1 d have 1: "summary_writes demo_world (snd (call_state
       (receive_frames ?ws demo_client demo_world))) = 1" by simp
  from f l have 2: "files (snd (call_state (receive_frames ?ws demo_client demo_world)))
        (demo_root @ [''metadata.txt'']) = Some (Summary 1 (JInt 0) demo_root)"
    by (simp add: loop_end_def absolute_def demo_defs run_defs)
  from t2 o have 3: "receive_frames ?no demo_client demo_world =
       Returned (demo_client, demo_world\<lparr>connections := [''wss://localhost:5000/ws/frames'']\<rparr>)"
    by (simp add: entry_def demo_defs run_defs)
  from t1 m have 4: "summary_writes demo_world ?w = 0" by simp
  from 1 2 3 4 show ?thesis by simp
qed

text \<open>
  Two runs of \<^verbatim>\<open>main\<close> that end without a summary: the connection of the stream
  cannot be opened; the initialization request is answered with status 500. No file is
  written in either.
\<close>

theorem no_summary_without_stream_counterexample:
  "main (demo_args\<lparr>skip_generate := True\<rparr>)
        ((demo_env [])\<lparr>websocket := \<lparr>opens = False, inbound = [], closes = True\<rparr>\<rparr>) demo_world =
     (TransferDone, Some demo_client,
      demo_world\<lparr>connections := [''wss://localhost:5000/ws/frames'']\<rparr>)
   \<and> main (demo_args\<lparr>skip_init := False, satellite_file := Some ''satellites.json''\<rparr>)
        ((demo_env [])\<lparr>initialize_response := Response 500 None\<rparr>) demo_world =
     (InitializationFailed, Some demo_client,
      demo_world\<lparr>posts := [(''https://localhost:5000/api/initialize'',
                              JObj [(''satellites'', JArr []), (''config'', JObj [])])]\<rparr>)
   \<and> files demo_world = Map.empty \<and> history demo_world = []"
  by (simp add: main_defs demo_defs run_defs insert_absorb)

section \<open>Frames reach the disk as sent\<close>







end
